theory Spec2Isabelle
  imports Complex_Main "HOL-Library.Log_Nat"
begin

section \<open>Sensor-node sketches: sampling and change-triggered reporting\<close>

text \<open>
  The repository holds three Arduino sketches: the Sensebender Micro alarm unit
  (temperature, humidity, door, motion, battery) and two door/motion sketches.
  Each sketch is a \<open>setup\<close> routine and a \<open>loop\<close> body that the runtime calls
  forever. The global variables of a sketch become a record, every routine takes
  the record and returns it updated together with the list of messages it sent,
  and what the hardware delivers in a cycle (sensor sample, pin levels, supply
  voltage) is an argument.
\<close>

subsection \<open>Floating-point values\<close>

text \<open>
  On the AVR both \<open>float\<close> and \<open>double\<close> are the 32-bit binary format: 24
  significant bits, the smallest positive value \<open>2 powi (- 149)\<close>, every result
  rounded to the nearest value of the format, ties to the even significand.
  \<open>round32\<close> is that rounding: \<open>ulp_exp x\<close> is the exponent of the spacing of the
  format around \<open>x\<close>, found from the bit length of \<open>x\<close> counted in units of the
  smallest value, and \<open>x\<close> is rounded to a multiple of that spacing.

  A value of the model is a NaN or a finite value. The exponent is not bounded
  above and there are no infinities: a result of magnitude \<open>2 powi 128\<close> or more
  would need an operand that no 16-bit or 32-bit integer of the sketch and no
  quotient by \<open>100.0\<close>, \<open>1000.0\<close>, \<open>14.0\<close> or a sample count produces. For the
  same reason a division by zero, which the sketch never performs (its divisors are
  these constants and a count of at least one), has the value NaN here. Every
  comparison with a NaN is false.
\<close>

definition round_half_even :: "real \<Rightarrow> int" where
  "round_half_even q =
     (let f = \<lfloor>q\<rfloor>; d = q - of_int f
      in if d < 1 / 2 then f else if 1 / 2 < d then f + 1 else if even f then f else f + 1)"

definition denorm_scale :: real where
  "denorm_scale = 2 ^ 149"

definition ulp_exp :: "real \<Rightarrow> int" where
  "ulp_exp x = max (bitlen \<lfloor>\<bar>x\<bar> * denorm_scale\<rfloor> - 173) (- 149)"

definition round32 :: "real \<Rightarrow> real" where
  "round32 x = of_int (round_half_even (x / 2 powi ulp_exp x)) * 2 powi ulp_exp x"

datatype flt = NaN | Fin real

definition isnan :: "flt \<Rightarrow> bool" where
  "isnan x = (case x of NaN \<Rightarrow> True | Fin _ \<Rightarrow> False)"

fun fsub :: "flt \<Rightarrow> flt \<Rightarrow> flt" where
  "fsub (Fin a) (Fin b) = Fin (round32 (a - b))"
| "fsub _ _ = NaN"

fun fadd :: "flt \<Rightarrow> flt \<Rightarrow> flt" where
  "fadd (Fin a) (Fin b) = Fin (round32 (a + b))"
| "fadd _ _ = NaN"

fun fdiv :: "flt \<Rightarrow> flt \<Rightarrow> flt" where
  "fdiv (Fin a) (Fin b) = (if b = 0 then NaN else Fin (round32 (a / b)))"
| "fdiv _ _ = NaN"

fun fneg :: "flt \<Rightarrow> flt" where
  "fneg (Fin a) = Fin (- a)"
| "fneg NaN = NaN"

fun fgt :: "flt \<Rightarrow> flt \<Rightarrow> bool" where
  "fgt (Fin a) (Fin b) = (a > b)"
| "fgt _ _ = False"

text \<open>Conversion of an integer to \<open>float\<close> rounds as well (it is exact below \<open>2 ^ 24\<close>).\<close>

definition of_int_flt :: "int \<Rightarrow> flt" where
  "of_int_flt i = Fin (round32 (of_int i))"

text \<open>Arduino's \<open>abs\<close> is the macro \<open>((x)>0?(x):-(x))\<close>.\<close>

definition abs_macro :: "flt \<Rightarrow> flt" where
  "abs_macro x = (if fgt x (Fin 0) then x else fneg x)"

text \<open>
  Conversion of a float to \<open>long\<close> truncates towards zero. (Converting a NaN is
  undefined in C; the one conversion of the sketch is applied to a quotient by
  \<open>14.0\<close>, which is finite.)
\<close>

definition trunc_long :: "flt \<Rightarrow> int" where
  "trunc_long x = (case x of NaN \<Rightarrow> 0 | Fin a \<Rightarrow> if a \<ge> 0 then \<lfloor>a\<rfloor> else \<lceil>a\<rceil>)"

subsection \<open>Messages\<close>

text \<open>
  \<open>send(MyMessage(child, type).set(v))\<close> is recorded as \<open>Send child payload\<close>;
  \<open>sendBatteryLevel(p)\<close> is the library's internal battery message.
\<close>

datatype payload = PInt int | PStr string | PFloat flt nat

datatype report = Send nat payload | BatteryLevel int

subsection \<open>Sensebender Micro: constants and globals\<close>

definition AVERAGES :: nat where "AVERAGES = 2"
definition BATT_SENSOR :: nat where "BATT_SENSOR = 199"
definition CHILD_ID_TEMP :: nat where "CHILD_ID_TEMP = 1"
definition CHILD_ID_HUM :: nat where "CHILD_ID_HUM = 2"
definition CHILD_ID_DOOR :: nat where "CHILD_ID_DOOR = 3"
definition CHILD_ID_MOTION :: nat where "CHILD_ID_MOTION = 4"
definition FORCE_TRANSMIT_INTERVAL :: int where "FORCE_TRANSMIT_INTERVAL = 30"
definition HUMI_TRANSMIT_THRESHOLD :: flt where "HUMI_TRANSMIT_THRESHOLD = Fin (1 / 2)"
definition TEMP_TRANSMIT_THRESHOLD :: flt where "TEMP_TRANSMIT_THRESHOLD = Fin (1 / 2)"

text \<open>
  The sample returned by \<open>humiditySensor.getHumidityAndTemperature()\<close>. The
  declaration of \<open>si7021_env\<close> belongs to the sensor driver and is not part of the
  sources; the sketch reads three fields of it, all integers (hundredths of a
  degree, whole percent).
\<close>

record si7021_env =
  celsiusHundredths :: int
  fahrenheitHundredths :: int
  humidityPercent :: int

text \<open>
  Modelled from the spec: the \<open>RunningAverage\<close> class of the averaging library is
  not part of the sources. It is a fixed-length window over the most recent
  samples (\<open>AVERAGES\<close> of them, newest first here) whose average is the sum of the
  held samples over their count, and NaN while the window is empty.
\<close>

type_synonym running_average = "flt list"

definition clear :: "running_average" where
  "clear = []"

definition addValue :: "flt \<Rightarrow> running_average \<Rightarrow> running_average" where
  "addValue v ra = take AVERAGES (v # ra)"

definition getAverage :: "running_average \<Rightarrow> flt" where
  "getAverage ra =
     (if length ra = 0 then NaN
      else fdiv (foldr fadd ra (Fin 0)) (Fin (of_nat (length ra))))"

text \<open>
  The globals of the sketch. \<open>measureCount\<close> and \<open>sendBattery\<close> are 16-bit
  \<open>int\<close>s in the source; they are unbounded integers here, and
  \<open>counters_bounded\<close> below shows that on every run from \<open>setup\<close> they stay far
  inside the 16-bit range, so no increment ever overflows.
\<close>

record state =
  measureCount :: int
  sendBattery :: int
  isMetric :: bool
  transmission_occured :: bool
  lastTemperature :: flt
  lastHumidity :: int
  lastBattery :: int
  old_door_val :: bool
  old_motion_val :: bool
  raHum :: running_average

definition init_state :: state where
  "init_state =
     \<lparr> measureCount = 0, sendBattery = 0, isMetric = True,
       transmission_occured = False,
       lastTemperature = Fin (- 100), lastHumidity = - 100, lastBattery = - 100,
       old_door_val = False, old_motion_val = False,
       raHum = clear \<rparr>"

text \<open>What the hardware delivers during one wake cycle; a pin is \<open>True\<close> when HIGH.\<close>

record readings =
  env :: si7021_env
  vcc :: int
  door_pin :: bool
  motion_pin :: bool

subsection \<open>Sensebender Micro: the routines\<close>

definition sendBattLevel :: "bool \<Rightarrow> int \<Rightarrow> state \<Rightarrow> state \<times> report list" where
  "sendBattLevel force v st =
     (let st1 = (if force then st\<lparr>lastBattery := - 1\<rparr> else st) in
      if v \<noteq> lastBattery st1 then
        (let st2 = st1\<lparr>lastBattery := v\<rparr>;
             send_voltage = fdiv (of_int_flt v) (Fin 1000);
             v' = v - 1900;
             percent = trunc_long (fdiv (of_int_flt v') (Fin 14))
         in (st2\<lparr>transmission_occured := True\<rparr>,
             [Send BATT_SENSOR (PFloat send_voltage 3), BatteryLevel percent]))
      else (st1, []))"

text \<open>
  \<open>sendTempHumidityMeasurements\<close> computes the temperature of the sample (in the
  unit system in force), the two differences \<open>diffTemp\<close> and \<open>diffHum\<close> and the flag
  \<open>tx\<close>; these four expressions are named here and used in the routine below. The
  humidity is pushed into the running average before \<open>diffHum\<close> is taken. The value
  \<open>v\<close> is what \<open>readVcc()\<close> would return if the routine came to call it.
\<close>

definition reading_temperature :: "state \<Rightarrow> si7021_env \<Rightarrow> flt" where
  "reading_temperature st d =
     fdiv (of_int_flt (if isMetric st then celsiusHundredths d else fahrenheitHundredths d))
          (Fin 100)"

definition diffTemp :: "state \<Rightarrow> si7021_env \<Rightarrow> flt" where
  "diffTemp st d = abs_macro (fsub (lastTemperature st) (reading_temperature st d))"

definition diffHum :: "state \<Rightarrow> si7021_env \<Rightarrow> flt" where
  "diffHum st d =
     abs_macro (fsub (of_int_flt (lastHumidity st))
                     (getAverage (addValue (of_int_flt (humidityPercent d)) (raHum st))))"

definition tx_flag :: "bool \<Rightarrow> flt \<Rightarrow> flt \<Rightarrow> bool" where
  "tx_flag force dT dH =
     (let tx = force;
          tx = (if isnan dH then True else tx);
          tx = (if fgt dT TEMP_TRANSMIT_THRESHOLD then True else tx);
          tx = (if fgt dH HUMI_TRANSMIT_THRESHOLD then True else tx)
      in tx)"

definition sendTempHumidityMeasurements ::
  "bool \<Rightarrow> si7021_env \<Rightarrow> int \<Rightarrow> state \<Rightarrow> state \<times> report list" where
  "sendTempHumidityMeasurements force d v st =
     (let dT = diffTemp st d;
          dH = diffHum st d;
          st1 = st\<lparr>raHum := addValue (of_int_flt (humidityPercent d)) (raHum st)\<rparr>
      in if tx_flag force dT dH then
           (let st2 = st1\<lparr>measureCount := 0\<rparr>;
                temperature = reading_temperature st d;
                humidity = humidityPercent d;
                out = [Send CHILD_ID_TEMP (PFloat temperature 1),
                       Send CHILD_ID_HUM (PInt humidity)];
                st3 = st2\<lparr>lastTemperature := temperature, lastHumidity := humidity,
                           transmission_occured := True\<rparr>
            in if sendBattery st3 > 60 then
                 (let (st4, b) = sendBattLevel True v st3
                  in (st4\<lparr>sendBattery := 0\<rparr>, out @ b))
               else (st3, out))
         else (st1, []))"

text \<open>
  One pass of \<open>loop\<close>. \<open>USE_BOUNCER\<close> is not defined, so the door value is the
  level read from the pin; the closing \<open>sleep\<close> does not touch the globals.
\<close>

definition loop :: "readings \<Rightarrow> state \<Rightarrow> state \<times> report list" where
  "loop r st =
     (let st1 = st\<lparr>measureCount := measureCount st + 1,
                    sendBattery := sendBattery st + 1,
                    transmission_occured := False\<rparr>;
          forceTransmit = (measureCount st1 > FORCE_TRANSMIT_INTERVAL);
          st2 = (if forceTransmit then st1\<lparr>measureCount := 0\<rparr> else st1);
          (st3, out1) = sendTempHumidityMeasurements forceTransmit (env r) (vcc r) st2;
          door_val = door_pin r;
          (st4, out2) =
             (if door_val \<noteq> old_door_val st3
              then (st3\<lparr>old_door_val := door_val\<rparr>,
                    [Send CHILD_ID_DOOR (PInt (if door_val then 1 else 0))])
              else (st3, []));
          motion = motion_pin r;
          (st5, out3) =
             (if motion \<noteq> old_motion_val st4
              then (st4\<lparr>old_motion_val := motion\<rparr>,
                    [Send CHILD_ID_MOTION (PInt (if motion then 1 else 0))])
              else (st4, []))
      in (st5, out1 @ out2 @ out3))"

text \<open>
  The part of \<open>setup\<close> that follows the test-mode check: the unit system is
  fetched from the controller, the average is cleared, and a first sample and the
  battery level are reported.
\<close>

definition setup_measurements :: "bool \<Rightarrow> readings \<Rightarrow> state \<times> report list" where
  "setup_measurements cfg r =
     (let st1 = init_state\<lparr>isMetric := cfg\<rparr>;
          st2 = st1\<lparr>raHum := clear\<rparr>;
          (st3, out1) = sendTempHumidityMeasurements False (env r) (vcc r) st2;
          (st4, out2) = sendBattLevel False (vcc r) st3
      in (st4, out1 @ out2))"

text \<open>The wake cycles that follow: \<open>loop\<close> once per element of the input list.\<close>

fun run :: "readings list \<Rightarrow> state \<Rightarrow> state \<times> report list list" where
  "run [] st = (st, [])"
| "run (r # rs) st =
     (let (st1, out) = loop r st;
          (st2, outs) = run rs st1
      in (st2, out # outs))"

text \<open>Which channels a list of sent messages mentions.\<close>

fun is_child :: "nat \<Rightarrow> report \<Rightarrow> bool" where
  "is_child c (Send c' _) = (c' = c)"
| "is_child c (BatteryLevel _) = False"

definition sent :: "nat \<Rightarrow> report list \<Rightarrow> bool" where
  "sent c out = list_ex (is_child c) out"

fun is_battery :: "report \<Rightarrow> bool" where
  "is_battery (BatteryLevel _) = True"
| "is_battery (Send c _) = (c = BATT_SENSOR)"

definition battery_reported :: "report list \<Rightarrow> bool" where
  "battery_reported out = list_ex is_battery out"

subsection \<open>Sensebender Micro: test mode\<close>

text \<open>
  \<open>testMode\<close> probes three peripherals, counts the passes and then enters one of
  two \<open>while (1)\<close> loops. Its inputs are the outcomes of the probes; its
  observable output is the sequence of LED writes and delays. A routine that
  never returns has the value \<open>None\<close>.
\<close>

datatype io = LedWrite bool | Delay nat

record peripherals =
  si7021_begin :: bool
  flash_initialize :: bool
  sha204_wakeup :: bool
  sha204_serial :: bool

definition selftest_count :: "peripherals \<Rightarrow> nat" where
  "selftest_count p =
     (let tests = 0;
          tests = (if si7021_begin p then tests + 1 else tests);
          tests = (if flash_initialize p then tests + 1 else tests);
          tests = (if sha204_wakeup p then (if sha204_serial p then tests + 1 else tests)
                   else tests)
      in tests)"

partial_function (option) blink_ok :: "io list \<Rightarrow> io list option" where
  "blink_ok tr = blink_ok (tr @ [LedWrite True, Delay 200, LedWrite False, Delay 200])"

partial_function (option) selftest_failed :: "io list \<Rightarrow> io list option" where
  "selftest_failed tr = selftest_failed tr"

definition testMode :: "peripherals \<Rightarrow> io list option" where
  "testMode p =
     (let tr = [LedWrite True]
      in if selftest_count p = 3 then blink_ok tr else selftest_failed tr)"

text \<open>The LED writes and delays issued up to the end of the \<open>n\<close>-th iteration of the final loop.\<close>

fun blink_ok_trace :: "nat \<Rightarrow> io list \<Rightarrow> io list" where
  "blink_ok_trace 0 tr = tr"
| "blink_ok_trace (Suc n) tr =
     blink_ok_trace n (tr @ [LedWrite True, Delay 200, LedWrite False, Delay 200])"

fun selftest_failed_trace :: "nat \<Rightarrow> io list \<Rightarrow> io list" where
  "selftest_failed_trace 0 tr = tr"
| "selftest_failed_trace (Suc n) tr = selftest_failed_trace n tr"

definition testMode_trace :: "peripherals \<Rightarrow> nat \<Rightarrow> io list" where
  "testMode_trace p n =
     (let tr = [LedWrite True]
      in if selftest_count p = 3 then blink_ok_trace n tr else selftest_failed_trace n tr)"

text \<open>
  \<open>setup\<close> as a whole: with the test pin held low at power-on it calls \<open>testMode\<close>
  first and goes on only if that returns.
\<close>

definition setup_sketch ::
  "bool \<Rightarrow> peripherals \<Rightarrow> bool \<Rightarrow> readings \<Rightarrow> (state \<times> report list) option" where
  "setup_sketch test_pin p cfg r =
     (if \<not> test_pin
      then (case testMode p of None \<Rightarrow> None | Some _ \<Rightarrow> Some (setup_measurements cfg r))
      else Some (setup_measurements cfg r))"

subsection \<open>The door and motion sketches\<close>

text \<open>
  Both sketches read the two pins and send the string \<open>"1"\<close> or \<open>"0"\<close>. The
  first keeps the previous values and sends on change. The ProMini3v sketch does so
  only when \<open>SEND_ONLY_CHANGES\<close> is defined, and the sketch leaves it undefined;
  the previous values then do not exist and the record is passed through.
\<close>

definition DOOR_ID :: nat where "DOOR_ID = 2"
definition MOTION_ID :: nat where "MOTION_ID = 3"

record dm_state =
  door_prev :: bool
  motion_prev :: bool

definition dm_init :: dm_state where
  "dm_init = \<lparr> door_prev = False, motion_prev = False \<rparr>"

definition tripped_str :: "bool \<Rightarrow> payload" where
  "tripped_str b = PStr (if b then ''1'' else ''0'')"

definition loop_motion :: "bool \<Rightarrow> bool \<Rightarrow> dm_state \<Rightarrow> dm_state \<times> report list" where
  "loop_motion door motion st =
     (let (st1, out1) =
            (if door \<noteq> door_prev st
             then (st\<lparr>door_prev := door\<rparr>, [Send DOOR_ID (tripped_str door)])
             else (st, []));
          (st2, out2) =
            (if motion \<noteq> motion_prev st1
             then (st1\<lparr>motion_prev := motion\<rparr>, [Send MOTION_ID (tripped_str motion)])
             else (st1, []))
      in (st2, out1 @ out2))"

definition SEND_ONLY_CHANGES :: bool where
  "SEND_ONLY_CHANGES = False"

definition loop_promini ::
  "bool \<Rightarrow> bool \<Rightarrow> bool \<Rightarrow> dm_state \<Rightarrow> dm_state \<times> report list" where
  "loop_promini only_changes door motion st =
     (let (st1, out1) =
            (if only_changes
             then (if door \<noteq> door_prev st
                   then (st\<lparr>door_prev := door\<rparr>, [Send DOOR_ID (tripped_str door)])
                   else (st, []))
             else (st, [Send DOOR_ID (tripped_str door)]));
          (st2, out2) =
            (if only_changes
             then (if motion \<noteq> motion_prev st1
                   then (st1\<lparr>motion_prev := motion\<rparr>, [Send MOTION_ID (tripped_str motion)])
                   else (st1, []))
             else (st1, [Send MOTION_ID (tripped_str motion)]))
      in (st2, out1 @ out2))"

subsection \<open>Auxiliary notions\<close>

text \<open>
  The state in which \<open>loop\<close> calls \<open>sendTempHumidityMeasurements\<close> (both counters
  incremented, \<open>measureCount\<close> reset when the force interval is exceeded), and the
  value of the \<open>tx\<close> flag that call computes.
\<close>

definition loop_pre :: "state \<Rightarrow> state" where
  "loop_pre st =
     (let st1 = st\<lparr>measureCount := measureCount st + 1,
                    sendBattery := sendBattery st + 1,
                    transmission_occured := False\<rparr>
      in if measureCount st1 > FORCE_TRANSMIT_INTERVAL then st1\<lparr>measureCount := 0\<rparr> else st1)"

definition loop_tx :: "readings \<Rightarrow> state \<Rightarrow> bool" where
  "loop_tx r st =
     tx_flag (measureCount st + 1 > FORCE_TRANSMIT_INTERVAL)
             (diffTemp st (env r)) (diffHum st (env r))"

text \<open>Concrete samples: 20.00 and 21.00 degrees Celsius at 40 percent, 20.00 degrees at 50 percent.\<close>

definition sample_a :: readings where
  "sample_a =
     \<lparr> env = \<lparr> celsiusHundredths = 2000, fahrenheitHundredths = 6800, humidityPercent = 40 \<rparr>,
       vcc = 3300, door_pin = False, motion_pin = False \<rparr>"

definition sample_b :: readings where
  "sample_b =
     \<lparr> env = \<lparr> celsiusHundredths = 2100, fahrenheitHundredths = 6980, humidityPercent = 40 \<rparr>,
       vcc = 3300, door_pin = False, motion_pin = False \<rparr>"

definition sample_c :: readings where
  "sample_c =
     \<lparr> env = \<lparr> celsiusHundredths = 2000, fahrenheitHundredths = 6800, humidityPercent = 50 \<rparr>,
       vcc = 3300, door_pin = True, motion_pin = False \<rparr>"




text \<open>The state after \<open>setup\<close> and two wake cycles, all three with the sample \<open>sample_a\<close>.\<close>

definition warm_state :: state where
  "warm_state = fst (run [sample_a, sample_a] (fst (setup_measurements True sample_a)))"

text \<open>
  The states in which the wake cycles 31 and 62 of the run with the constant sample
  \<open>sample_a\<close> begin.
\<close>

definition cycle31_state :: state where
  "cycle31_state = fst (run (replicate 30 sample_a) (fst (setup_measurements True sample_a)))"

definition cycle62_state :: state where
  "cycle62_state = fst (run (replicate 30 sample_a) (fst (loop sample_a cycle31_state)))"

text \<open>
  A state is steady for a sample when the stored temperature and humidity are those
  of the sample and the averaging window holds nothing but its humidity.
\<close>

definition steady :: "si7021_env \<Rightarrow> state \<Rightarrow> bool" where
  "steady e st \<longleftrightarrow>
     lastTemperature st = reading_temperature st e \<and>
     lastHumidity st = humidityPercent e \<and>
     (raHum st = [of_int_flt (humidityPercent e)] \<or>
      raHum st = [of_int_flt (humidityPercent e), of_int_flt (humidityPercent e)])"

text \<open>Peripherals of which the flash memory fails its probe, and healthy ones.\<close>

definition flash_broken :: peripherals where
  "flash_broken =
     \<lparr> si7021_begin = True, flash_initialize = False,
       sha204_wakeup = True, sha204_serial = True \<rparr>"

definition all_healthy :: peripherals where
  "all_healthy =
     \<lparr> si7021_begin = True, flash_initialize = True,
       sha204_wakeup = True, sha204_serial = True \<rparr>"

section \<open>Properties\<close>

subsection \<open>Rounding to the 32-bit format\<close>


lemma rhe_of_int: "round_half_even (of_int n) = n"
  by (simp add: round_half_even_def)

lemma rhe_ge:
  assumes "of_int a \<le> q"
  shows "a \<le> round_half_even q"
proof -
  from assms have "a \<le> \<lfloor>q\<rfloor>" by (simp add: le_floor_iff)
  then show ?thesis by (auto simp add: round_half_even_def Let_def)
qed

lemma rhe_le:
  assumes "q \<le> of_int a"
  shows "round_half_even q \<le> a"
proof (cases "q = of_int a")
  case True
  then show ?thesis by (simp add: rhe_of_int)
next
  case False
  with assms have "q < of_int a" by simp
  then have "\<lfloor>q\<rfloor> < a" by (simp add: floor_less_iff)
  then show ?thesis by (auto simp add: round_half_even_def Let_def)
qed

lemma bitlen_eqI:
  assumes "2 ^ nat (b - 1) \<le> a" "a < 2 ^ nat b" "1 \<le> b"
  shows "bitlen a = b"
proof -
  from assms have pos: "0 < a"
    by (meson less_le_trans zero_less_numeral zero_less_power)
  from bitlen_bounds [OF pos]
  have lo: "2 ^ nat (bitlen a - 1) \<le> a" and hi: "a < 2 ^ nat (bitlen a)" by simp_all
  have "\<not> bitlen a < b"
  proof
    assume "bitlen a < b"
    then have "nat (bitlen a) \<le> nat (b - 1)" by simp
    then have "(2::int) ^ nat (bitlen a) \<le> 2 ^ nat (b - 1)"
      by (simp add: power_increasing)
    with hi assms(1) show False by simp
  qed
  moreover have "\<not> b < bitlen a"
  proof
    assume "b < bitlen a"
    then have "nat b \<le> nat (bitlen a - 1)" by simp
    then have "(2::int) ^ nat b \<le> 2 ^ nat (bitlen a - 1)"
      by (simp add: power_increasing)
    with lo assms(2) show False by simp
  qed
  ultimately show ?thesis by simp
qed

lemma denorm_scale_pos: "0 < denorm_scale"
  by (simp add: denorm_scale_def)

lemma powi_shift:
  assumes "- 149 \<le> e"
  shows "2 powi e * denorm_scale = 2 ^ nat (e + 149)"
proof -
  have "2 powi e * denorm_scale = 2 powi e * 2 powi 149"
    unfolding denorm_scale_def by (simp only: power_int_numeral)
  also have "\<dots> = 2 powi (e + 149)"
    by (simp add: power_int_add)
  also have "\<dots> = 2 ^ nat (e + 149)"
    using assms by (simp add: power_int_def)
  finally show ?thesis .
qed

lemma ulp_exp_normal:
  assumes "2 powi e \<le> \<bar>x\<bar>" "\<bar>x\<bar> < 2 powi (e + 1)" "- 126 \<le> e"
  shows "ulp_exp x = e - 23"
proof -
  let ?m = "\<lfloor>\<bar>x\<bar> * denorm_scale\<rfloor>"
  have "(2::real) ^ nat (e + 149) = 2 powi e * denorm_scale"
    using assms(3) by (intro powi_shift [symmetric]) simp
  also have "\<dots> \<le> \<bar>x\<bar> * denorm_scale"
    using assms(1) denorm_scale_pos by (simp add: mult_right_mono)
  finally have lo: "(2::real) ^ nat (e + 149) \<le> \<bar>x\<bar> * denorm_scale" .
  have "\<bar>x\<bar> * denorm_scale < 2 powi (e + 1) * denorm_scale"
    using assms(2) denorm_scale_pos by (simp add: mult_strict_right_mono)
  also have "\<dots> = 2 ^ nat (e + 1 + 149)"
    using assms(3) by (intro powi_shift) simp
  finally have hi: "\<bar>x\<bar> * denorm_scale < (2::real) ^ nat (e + 1 + 149)" .
  have eq: "e + 150 - 1 = e + 149" "e + 1 + 149 = e + 150" by simp_all
  have "2 ^ nat (e + 149) \<le> ?m"
    using lo by (subst le_floor_iff) (simp only: of_int_power of_int_numeral)
  then have "2 ^ nat (e + 150 - 1) \<le> ?m"
    by (simp only: eq)
  moreover have "?m < 2 ^ nat (e + 150)"
    using hi by (subst floor_less_iff) (simp only: of_int_power of_int_numeral eq)
  ultimately have "bitlen ?m = e + 150"
    using assms(3) by (intro bitlen_eqI) simp_all
  with assms(3) show ?thesis by (simp add: ulp_exp_def)
qed

lemma normal_exponent:
  fixes x :: real
  assumes "2 powi (- 126) \<le> \<bar>x\<bar>"
  obtains e where "- 126 \<le> e" "2 powi e \<le> \<bar>x\<bar>" "\<bar>x\<bar> < 2 powi (e + 1)"
proof -
  let ?m = "\<lfloor>\<bar>x\<bar> * denorm_scale\<rfloor>"
  let ?b = "bitlen ?m"
  have "(2::real) ^ 23 = 2 powi (- 126) * denorm_scale"
    using powi_shift [of "- 126"] by simp
  also have "\<dots> \<le> \<bar>x\<bar> * denorm_scale"
    using assms denorm_scale_pos by (simp add: mult_right_mono)
  finally have m23: "2 ^ 23 \<le> ?m" by (simp add: le_floor_iff)
  have pos: "0 < ?m" by (rule less_le_trans [OF _ m23]) simp
  from bitlen_bounds [OF pos]
  have lo: "2 ^ nat (?b - 1) \<le> ?m" and hi: "?m < 2 ^ nat ?b" by simp_all
  have b24: "24 \<le> ?b"
  proof (rule ccontr)
    assume "\<not> 24 \<le> ?b"
    then have "nat ?b \<le> 23" by simp
    then have "(2::int) ^ nat ?b \<le> 2 ^ 23" by (intro power_increasing) simp_all
    with hi m23 show False by linarith
  qed
  let ?e = "?b - 150"
  have e: "- 126 \<le> ?e" using b24 by simp
  have "2 powi ?e * denorm_scale = (2::real) ^ nat (?e + 149)"
    using e by (intro powi_shift) simp
  also have "\<dots> = of_int (2 ^ nat (?b - 1))" by simp
  also have "\<dots> \<le> of_int ?m" using lo by (simp only: of_int_le_iff)
  also have "\<dots> \<le> \<bar>x\<bar> * denorm_scale" by simp
  finally have l: "2 powi ?e \<le> \<bar>x\<bar>" using denorm_scale_pos by simp
  have "\<bar>x\<bar> * denorm_scale < of_int (?m + 1)" by linarith
  also have "\<dots> \<le> of_int (2 ^ nat ?b)" using hi by (simp only: of_int_le_iff)
  also have "\<dots> = (2::real) ^ nat (?e + 1 + 149)" by simp
  also have "\<dots> = 2 powi (?e + 1) * denorm_scale"
    using e by (intro powi_shift [symmetric]) simp
  finally have h: "\<bar>x\<bar> < 2 powi (?e + 1)" using denorm_scale_pos by simp
  from e l h show thesis by (rule that)
qed


lemma round32_zero: "round32 0 = 0"
  by (simp add: round32_def round_half_even_def)

lemma round32_grid:
  assumes "2 ^ 23 \<le> \<bar>n\<bar>" "\<bar>n\<bar> < 2 ^ 24" "- 149 \<le> k"
  shows "round32 (of_int n * 2 powi k) = of_int n * 2 powi k"
proof -
  let ?x = "real_of_int n * 2 powi k"
  have abs: "\<bar>?x\<bar> = of_int \<bar>n\<bar> * 2 powi k"
    by (simp add: abs_mult)
  have "2 powi (k + 23) = (2::real) ^ 23 * 2 powi k"
    by (simp add: power_int_add)
  also have "\<dots> \<le> of_int \<bar>n\<bar> * 2 powi k"
  proof (rule mult_right_mono)
    have "real_of_int (2 ^ 23) \<le> real_of_int \<bar>n\<bar>"
      using assms(1) by (simp only: of_int_le_iff)
    then show "(2::real) ^ 23 \<le> of_int \<bar>n\<bar>" by simp
  qed simp
  finally have lo: "2 powi (k + 23) \<le> \<bar>?x\<bar>" by (simp only: abs)
  have "of_int \<bar>n\<bar> * 2 powi k < (2::real) ^ 24 * 2 powi k"
  proof (rule mult_strict_right_mono)
    have "real_of_int \<bar>n\<bar> < real_of_int (2 ^ 24)"
      using assms(2) by (simp only: of_int_less_iff)
    then show "of_int \<bar>n\<bar> < (2::real) ^ 24" by simp
  qed simp
  also have "\<dots> = 2 powi (k + 23 + 1)"
    by (simp add: power_int_add)
  finally have hi: "\<bar>?x\<bar> < 2 powi (k + 23 + 1)" by (simp only: abs)
  from ulp_exp_normal [OF lo hi] assms(3) have "ulp_exp ?x = k" by simp
  then show ?thesis
    by (simp add: round32_def rhe_of_int)
qed

lemma rhe_error: "\<bar>real_of_int (round_half_even q) - q\<bar> \<le> 1 / 2"
proof -
  have "real_of_int \<lfloor>q\<rfloor> \<le> q" "q < real_of_int \<lfloor>q\<rfloor> + 1" by linarith+
  then show ?thesis
    by (auto simp add: round_half_even_def Let_def abs_le_iff)
qed

text \<open>The rounding is to a nearest value: it moves by at most half the spacing.\<close>

lemma round32_error: "\<bar>round32 x - x\<bar> \<le> 2 powi ulp_exp x / 2"
proof -
  let ?u = "2 powi ulp_exp x :: real"
  have u: "0 < ?u" by simp
  have "round32 x - x = (real_of_int (round_half_even (x / ?u)) - x / ?u) * ?u"
    using u by (simp add: round32_def field_simps)
  then have "\<bar>round32 x - x\<bar> = \<bar>real_of_int (round_half_even (x / ?u)) - x / ?u\<bar> * ?u"
    using u by (simp add: abs_mult)
  also have "\<dots> \<le> 1 / 2 * ?u"
    using rhe_error [of "x / ?u"] u by (intro mult_right_mono) simp_all
  finally show ?thesis by simp
qed

text \<open>Every value of the normal range is rounded to a 24-bit multiple of a power of two.\<close>

lemma round32_normal_form:
  fixes x :: real
  assumes "2 powi (- 126) \<le> \<bar>x\<bar>"
  obtains n k where "round32 x = of_int n * 2 powi k" "2 ^ 23 \<le> \<bar>n\<bar>" "\<bar>n\<bar> < 2 ^ 24"
    "- 149 \<le> k" "\<bar>x\<bar> < 2 powi (k + 24)" "0 < x \<longleftrightarrow> 0 < n"
proof -
  from normal_exponent [OF assms] obtain e
    where e: "- 126 \<le> e" "2 powi e \<le> \<bar>x\<bar>" "\<bar>x\<bar> < 2 powi (e + 1)" .
  define k where "k = e - 23"
  define q where "q = x / 2 powi k"
  define n where "n = round_half_even q"
  have ulp: "ulp_exp x = k"
    using ulp_exp_normal [OF e(2,3,1)] by (simp add: k_def)
  have r: "round32 x = of_int n * 2 powi k"
    by (simp add: round32_def ulp n_def q_def)
  have pk: "(0::real) < 2 powi k" by simp
  have absq: "\<bar>q\<bar> = \<bar>x\<bar> / 2 powi k"
    by (simp add: q_def abs_divide)
  have "2 powi e = (2::real) ^ 23 * 2 powi k"
    by (simp add: k_def power_int_diff)
  with e(2) have "(2::real) ^ 23 * 2 powi k \<le> \<bar>x\<bar>" by simp
  then have qlo: "2 ^ 23 \<le> \<bar>q\<bar>"
    unfolding absq using pk by (simp add: le_divide_eq)
  have "2 powi (e + 1) = (2::real) ^ 24 * 2 powi k"
    by (simp add: k_def power_int_add power_int_diff)
  with e(3) have "\<bar>x\<bar> < (2::real) ^ 24 * 2 powi k" by simp
  then have qhi: "\<bar>q\<bar> < 2 ^ 24"
    unfolding absq using pk by (simp add: divide_less_eq)
  have k149: "- 149 \<le> k" using e(1) by (simp add: k_def)
  have keq: "k + 24 = e + 1" by (simp add: k_def)
  have xk: "\<bar>x\<bar> < 2 powi (k + 24)"
    using e(3) by (simp only: keq)
  have xk1: "\<bar>x\<bar> < 2 powi (k + 1 + 24)"
  proof -
    have "(2::real) powi (k + 24) \<le> 2 powi (k + 1 + 24)"
      by (intro power_int_increasing) simp_all
    with xk show ?thesis by simp
  qed
  have x0: "x \<noteq> 0"
  proof
    assume "x = 0"
    with e(2) have "(2::real) powi e \<le> 0" by simp
    moreover have "(0::real) < 2 powi e" by simp
    ultimately show False by simp
  qed
  show thesis
  proof (cases "0 < x")
    case True
    then have qpos: "0 < q" using pk by (simp add: q_def)
    with qlo qhi have qb: "of_int (2 ^ 23) \<le> q" "q \<le> of_int (2 ^ 24)" by simp_all
    have n: "2 ^ 23 \<le> n" "n \<le> 2 ^ 24"
      unfolding n_def by (rule rhe_ge [OF qb(1)], rule rhe_le [OF qb(2)])
    show thesis
    proof (cases "n = 2 ^ 24")
      case False
      with n have "2 ^ 23 \<le> \<bar>n\<bar>" "\<bar>n\<bar> < 2 ^ 24" "0 < x \<longleftrightarrow> 0 < n"
        using True by simp_all
      with r k149 xk show thesis by (intro that [of n k])
    next
      case n24: True
      have "round32 x = of_int (2 ^ 23) * 2 powi (k + 1)"
        by (simp add: r n24 power_int_add)
      moreover have "(2::int) ^ 23 \<le> \<bar>2 ^ 23\<bar>" "\<bar>(2::int) ^ 23\<bar> < 2 ^ 24"
        "- 149 \<le> k + 1" "0 < x \<longleftrightarrow> 0 < (2::int) ^ 23"
        using True k149 by simp_all
      ultimately show thesis using xk1 by (intro that [of "2 ^ 23" "k + 1"])
    qed
  next
    case False
    with x0 have neg: "x < 0" by simp
    then have qneg: "q < 0" using pk by (simp add: q_def divide_neg_pos)
    with qlo qhi have qb: "of_int (- (2 ^ 24)) \<le> q" "q \<le> of_int (- (2 ^ 23))" by simp_all
    have n: "- (2 ^ 24) \<le> n" "n \<le> - (2 ^ 23)"
      unfolding n_def by (rule rhe_ge [OF qb(1)], rule rhe_le [OF qb(2)])
    show thesis
    proof (cases "n = - (2 ^ 24)")
      case False
      with n have "2 ^ 23 \<le> \<bar>n\<bar>" "\<bar>n\<bar> < 2 ^ 24" "0 < x \<longleftrightarrow> 0 < n"
        using neg by simp_all
      with r k149 xk show thesis by (intro that [of n k])
    next
      case n24: True
      have "round32 x = of_int (- (2 ^ 23)) * 2 powi (k + 1)"
        by (simp add: r n24 power_int_add)
      moreover have "(2::int) ^ 23 \<le> \<bar>- (2 ^ 23)\<bar>" "\<bar>- ((2::int) ^ 23)\<bar> < 2 ^ 24"
        "- 149 \<le> k + 1" "0 < x \<longleftrightarrow> 0 < - ((2::int) ^ 23)"
        using neg k149 by simp_all
      ultimately show thesis using xk1 by (intro that [of "- (2 ^ 23)" "k + 1"])
    qed
  qed
qed


lemma normal_one: "\<bar>x\<bar> \<ge> 1 \<Longrightarrow> 2 powi (- 126) \<le> \<bar>x::real\<bar>"
proof -
  assume "\<bar>x\<bar> \<ge> 1"
  moreover have "(2::real) powi (- 126) \<le> 2 powi 0"
    by (intro power_int_increasing) simp_all
  ultimately show ?thesis by simp
qed

lemma round32_idem:
  assumes "2 powi (- 126) \<le> \<bar>x\<bar>"
  shows "round32 (round32 x) = round32 x"
proof -
  from round32_normal_form [OF assms] obtain n k
    where "round32 x = of_int n * 2 powi k" "2 ^ 23 \<le> \<bar>n\<bar>" "\<bar>n\<bar> < 2 ^ 24" "- 149 \<le> k"
    by blast
  then show ?thesis by (simp add: round32_grid)
qed

lemma round32_double:
  assumes "2 powi (- 126) \<le> \<bar>x\<bar>"
  shows "round32 (round32 x + round32 x) = round32 x + round32 x"
proof -
  from round32_normal_form [OF assms] obtain n k
    where nk: "round32 x = of_int n * 2 powi k" "2 ^ 23 \<le> \<bar>n\<bar>" "\<bar>n\<bar> < 2 ^ 24" "- 149 \<le> k"
    by blast
  have "round32 x + round32 x = of_int n * 2 powi (k + 1)"
    by (simp add: nk(1) power_int_add)
  moreover have "round32 (of_int n * 2 powi (k + 1)) = of_int n * 2 powi (k + 1)"
    using nk by (intro round32_grid) simp_all
  ultimately show ?thesis by simp
qed

text \<open>Rounding keeps the sign and at least half of the magnitude.\<close>

lemma round32_neg:
  assumes "2 powi (- 126) \<le> \<bar>x\<bar>" "x < 0"
  shows "round32 x < x / 2"
proof -
  from round32_normal_form [OF assms(1)] obtain n k
    where nk: "round32 x = of_int n * 2 powi k" "2 ^ 23 \<le> \<bar>n\<bar>"
      "\<bar>x\<bar> < 2 powi (k + 24)" "0 < x \<longleftrightarrow> 0 < n"
    by blast
  from nk(2,4) assms(2) have "n \<le> - (2 ^ 23)" by simp
  then have "real_of_int n \<le> real_of_int (- (2 ^ 23))" by (simp only: of_int_le_iff)
  then have "real_of_int n * 2 powi k \<le> - (2 ^ 23) * 2 powi k"
    by (intro mult_right_mono) simp_all
  also have "\<dots> = - (2 powi (k + 24) / 2)"
    by (simp add: power_int_add)
  also have "\<dots> < - (\<bar>x\<bar> / 2)"
    using nk(3) by simp
  also have "\<dots> = x / 2" using assms(2) by simp
  finally show ?thesis by (simp only: nk(1))
qed

lemma round32_pos:
  assumes "2 powi (- 126) \<le> \<bar>x\<bar>" "0 < x"
  shows "x / 2 < round32 x"
proof -
  from round32_normal_form [OF assms(1)] obtain n k
    where nk: "round32 x = of_int n * 2 powi k" "2 ^ 23 \<le> \<bar>n\<bar>"
      "\<bar>x\<bar> < 2 powi (k + 24)" "0 < x \<longleftrightarrow> 0 < n"
    by blast
  from nk(2,4) assms(2) have "2 ^ 23 \<le> n" by simp
  then have "real_of_int (2 ^ 23) \<le> real_of_int n" by (simp only: of_int_le_iff)
  then have "2 ^ 23 * 2 powi k \<le> real_of_int n * 2 powi k"
    by (intro mult_right_mono) simp_all
  moreover have "(2::real) ^ 23 * 2 powi k = 2 powi (k + 24) / 2"
    by (simp add: power_int_add)
  moreover have "x / 2 < 2 powi (k + 24) / 2"
    using nk(3) assms(2) by simp
  ultimately show ?thesis by (simp only: nk(1))
qed

text \<open>Integers: the conversion of an integer is a fixed point of the rounding.\<close>

lemma round32_of_int_idem: "round32 (round32 (of_int h)) = round32 (of_int h)"
proof (cases "h = 0")
  case True
  then show ?thesis by (simp add: round32_zero)
next
  case False
  then have "\<bar>real_of_int h\<bar> \<ge> 1" by linarith
  then show ?thesis by (intro round32_idem normal_one)
qed

lemma round32_of_int_double:
  "round32 (round32 (of_int h) + round32 (of_int h)) = round32 (of_int h) + round32 (of_int h)"
proof (cases "h = 0")
  case True
  then show ?thesis by (simp add: round32_zero)
next
  case False
  then have "\<bar>real_of_int h\<bar> \<ge> 1" by linarith
  then show ?thesis by (intro round32_double normal_one)
qed

lemma round32_of_int_nonneg: "0 \<le> h \<Longrightarrow> 0 \<le> round32 (of_int h)"
proof (cases "h = 0")
  case True
  then show ?thesis by (simp add: round32_zero)
next
  case False
  assume "0 \<le> h"
  with False have "\<bar>real_of_int h\<bar> \<ge> 1" "0 < real_of_int h" by simp_all
  from round32_pos [OF normal_one [OF this(1)] this(2)] this(2)
  show ?thesis by simp
qed

lemma round32_small_int:
  assumes "\<bar>h\<bar> < 2 ^ 24"
  shows "round32 (of_int h) = of_int h"
proof (cases "h = 0")
  case True
  then show ?thesis by (simp add: round32_zero)
next
  case False
  then have pos: "0 < \<bar>h\<bar>" by simp
  define b where "b = bitlen \<bar>h\<bar>"
  from bitlen_bounds [OF pos]
  have lo: "2 ^ nat (b - 1) \<le> \<bar>h\<bar>" and hi: "\<bar>h\<bar> < 2 ^ nat b" by (simp_all add: b_def)
  have b1: "1 \<le> b" using pos by (simp add: b_def bitlen_alt_def)
  have b24: "b \<le> 24"
  proof (rule ccontr)
    assume "\<not> b \<le> 24"
    then have "24 \<le> nat (b - 1)" by simp
    then have "(2::int) ^ 24 \<le> 2 ^ nat (b - 1)" by (intro power_increasing) simp_all
    with lo assms show False by simp
  qed
  define s where "s = nat (24 - b)"
  have n: "2 ^ 23 \<le> \<bar>h * 2 ^ s\<bar>" "\<bar>h * 2 ^ s\<bar> < 2 ^ 24"
  proof -
    have "(2::int) ^ 23 = 2 ^ nat (b - 1) * 2 ^ s"
      using b1 b24 by (simp add: s_def power_add [symmetric] nat_diff_distrib nat_add_distrib [symmetric])
    also have "\<dots> \<le> \<bar>h\<bar> * 2 ^ s" using lo by (intro mult_right_mono) simp_all
    finally show "2 ^ 23 \<le> \<bar>h * 2 ^ s\<bar>" by (simp add: abs_mult)
    have "\<bar>h\<bar> * 2 ^ s < 2 ^ nat b * 2 ^ s" using hi by (intro mult_strict_right_mono) simp_all
    also have "\<dots> = (2::int) ^ 24"
      using b1 b24 by (simp add: s_def power_add [symmetric] nat_add_distrib [symmetric])
    finally show "\<bar>h * 2 ^ s\<bar> < 2 ^ 24" by (simp add: abs_mult)
  qed
  have k: "- 149 \<le> - int s" using b1 by (simp add: s_def)
  have eq: "of_int (h * 2 ^ s) * 2 powi (- int s) = real_of_int h"
    by (simp add: power_int_minus field_simps)
  from round32_grid [OF n k] show ?thesis by (simp only: eq)
qed

lemma round32_numeral:
  "numeral w < (2::int) ^ 24 \<Longrightarrow> round32 (numeral w) = numeral w"
  "numeral w < (2::int) ^ 24 \<Longrightarrow> round32 (- numeral w) = - numeral w"
  "round32 0 = 0" "round32 1 = 1" "round32 (- 1) = - 1"
  using round32_small_int [of "numeral w"] round32_small_int [of "- numeral w"]
    round32_small_int [of 1] round32_small_int [of "- 1"]
  by (simp_all add: round32_zero)

subsection \<open>One call of \<open>sendTempHumidityMeasurements\<close>\<close>

lemmas child_ids =
  CHILD_ID_DOOR_def CHILD_ID_MOTION_def CHILD_ID_TEMP_def CHILD_ID_HUM_def BATT_SENSOR_def

lemma tx_flag_iff:
  "tx_flag force dT dH \<longleftrightarrow>
     force \<or> isnan dH \<or> fgt dT TEMP_TRANSMIT_THRESHOLD \<or> fgt dH HUMI_TRANSMIT_THRESHOLD"
  by (simp add: tx_flag_def Let_def)

lemma sthm_frame:
  "old_door_val (fst (sendTempHumidityMeasurements f d v st)) = old_door_val st"
  "old_motion_val (fst (sendTempHumidityMeasurements f d v st)) = old_motion_val st"
  "isMetric (fst (sendTempHumidityMeasurements f d v st)) = isMetric st"
  "raHum (fst (sendTempHumidityMeasurements f d v st)) =
     addValue (of_int_flt (humidityPercent d)) (raHum st)"
  by (simp_all add: sendTempHumidityMeasurements_def sendBattLevel_def Let_def
      split: prod.splits)

lemma sthm_not_digital:
  "\<not> sent CHILD_ID_DOOR (snd (sendTempHumidityMeasurements f d v st))"
  "\<not> sent CHILD_ID_MOTION (snd (sendTempHumidityMeasurements f d v st))"
  by (simp_all add: sendTempHumidityMeasurements_def sendBattLevel_def Let_def sent_def
      child_ids split: prod.splits)

lemma sthm_sent:
  "sent CHILD_ID_TEMP (snd (sendTempHumidityMeasurements f d v st)) =
     tx_flag f (diffTemp st d) (diffHum st d)"
  "sent CHILD_ID_HUM (snd (sendTempHumidityMeasurements f d v st)) =
     tx_flag f (diffTemp st d) (diffHum st d)"
  by (simp_all add: sendTempHumidityMeasurements_def sendBattLevel_def Let_def sent_def
      child_ids split: prod.splits)

lemma sthm_measureCount:
  "measureCount (fst (sendTempHumidityMeasurements f d v st)) =
     (if tx_flag f (diffTemp st d) (diffHum st d) then 0 else measureCount st)"
  by (simp add: sendTempHumidityMeasurements_def sendBattLevel_def Let_def split: prod.splits)

lemma sthm_last:
  "lastTemperature (fst (sendTempHumidityMeasurements f d v st)) =
     (if tx_flag f (diffTemp st d) (diffHum st d) then reading_temperature st d
      else lastTemperature st)"
  "lastHumidity (fst (sendTempHumidityMeasurements f d v st)) =
     (if tx_flag f (diffTemp st d) (diffHum st d) then humidityPercent d
      else lastHumidity st)"
  by (simp_all add: sendTempHumidityMeasurements_def sendBattLevel_def Let_def
      split: prod.splits)

lemma sthm_sendBattery:
  "sendBattery (fst (sendTempHumidityMeasurements f d v st)) =
     (if tx_flag f (diffTemp st d) (diffHum st d) \<and> sendBattery st > 60 then 0
      else sendBattery st)"
  by (simp add: sendTempHumidityMeasurements_def sendBattLevel_def Let_def split: prod.splits)

lemma sthm_battery:
  "battery_reported (snd (sendTempHumidityMeasurements f d v st)) \<longleftrightarrow>
     tx_flag f (diffTemp st d) (diffHum st d) \<and> sendBattery st > 60 \<and> v \<noteq> - 1"
  by (simp add: sendTempHumidityMeasurements_def sendBattLevel_def Let_def
      battery_reported_def child_ids split: prod.splits)

lemma sthm_out:
  "tx_flag f (diffTemp st d) (diffHum st d) \<Longrightarrow>
     take 2 (snd (sendTempHumidityMeasurements f d v st)) =
       [Send CHILD_ID_TEMP (PFloat (reading_temperature st d) 1),
        Send CHILD_ID_HUM (PInt (humidityPercent d))]"
  by (simp add: sendTempHumidityMeasurements_def sendBattLevel_def Let_def split: prod.splits)

lemma sthm_out_none:
  "\<not> tx_flag f (diffTemp st d) (diffHum st d) \<Longrightarrow>
     snd (sendTempHumidityMeasurements f d v st) = []"
  by (simp add: sendTempHumidityMeasurements_def)

subsection \<open>One wake cycle\<close>

lemma loop_snd:
  "snd (loop r st) =
     snd (sendTempHumidityMeasurements (measureCount st + 1 > FORCE_TRANSMIT_INTERVAL)
            (env r) (vcc r) (loop_pre st))
     @ (if door_pin r \<noteq> old_door_val st
        then [Send CHILD_ID_DOOR (PInt (if door_pin r then 1 else 0))] else [])
     @ (if motion_pin r \<noteq> old_motion_val st
        then [Send CHILD_ID_MOTION (PInt (if motion_pin r then 1 else 0))] else [])"
  by (simp add: loop_def Let_def split_def sthm_frame loop_pre_def)

lemma loop_fst:
  "measureCount (fst (loop r st)) =
     measureCount (fst (sendTempHumidityMeasurements
       (measureCount st + 1 > FORCE_TRANSMIT_INTERVAL) (env r) (vcc r) (loop_pre st)))"
  "sendBattery (fst (loop r st)) =
     sendBattery (fst (sendTempHumidityMeasurements
       (measureCount st + 1 > FORCE_TRANSMIT_INTERVAL) (env r) (vcc r) (loop_pre st)))"
  "lastTemperature (fst (loop r st)) =
     lastTemperature (fst (sendTempHumidityMeasurements
       (measureCount st + 1 > FORCE_TRANSMIT_INTERVAL) (env r) (vcc r) (loop_pre st)))"
  "lastHumidity (fst (loop r st)) =
     lastHumidity (fst (sendTempHumidityMeasurements
       (measureCount st + 1 > FORCE_TRANSMIT_INTERVAL) (env r) (vcc r) (loop_pre st)))"
  "raHum (fst (loop r st)) =
     raHum (fst (sendTempHumidityMeasurements
       (measureCount st + 1 > FORCE_TRANSMIT_INTERVAL) (env r) (vcc r) (loop_pre st)))"
  "isMetric (fst (loop r st)) =
     isMetric (fst (sendTempHumidityMeasurements
       (measureCount st + 1 > FORCE_TRANSMIT_INTERVAL) (env r) (vcc r) (loop_pre st)))"
  by (simp_all add: loop_def Let_def split_def loop_pre_def)

lemma loop_pre_simps:
  "diffTemp (loop_pre st) d = diffTemp st d"
  "diffHum (loop_pre st) d = diffHum st d"
  "reading_temperature (loop_pre st) d = reading_temperature st d"
  "sendBattery (loop_pre st) = sendBattery st + 1"
  "measureCount (loop_pre st) =
     (if measureCount st + 1 > FORCE_TRANSMIT_INTERVAL then 0 else measureCount st + 1)"
  "lastTemperature (loop_pre st) = lastTemperature st"
  "lastHumidity (loop_pre st) = lastHumidity st"
  "raHum (loop_pre st) = raHum st"
  "isMetric (loop_pre st) = isMetric st"
  by (simp_all add: loop_pre_def Let_def diffTemp_def diffHum_def reading_temperature_def)

lemma sent_append: "sent c (xs @ ys) \<longleftrightarrow> sent c xs \<or> sent c ys"
  by (simp add: sent_def)

lemma battery_reported_append:
  "battery_reported (xs @ ys) \<longleftrightarrow> battery_reported xs \<or> battery_reported ys"
  by (simp add: battery_reported_def)

lemma loop_digital:
  "sent CHILD_ID_DOOR (snd (loop r st)) \<longleftrightarrow> door_pin r \<noteq> old_door_val st"
  "sent CHILD_ID_MOTION (snd (loop r st)) \<longleftrightarrow> motion_pin r \<noteq> old_motion_val st"
  by (simp_all add: loop_snd sent_append sthm_not_digital)
     (simp_all add: sent_def child_ids)

lemma loop_digital_stored:
  "old_door_val (fst (loop r st)) = door_pin r"
  "old_motion_val (fst (loop r st)) = motion_pin r"
  by (simp_all add: loop_def Let_def split_def sthm_frame)

lemma loop_sent_th:
  "sent CHILD_ID_TEMP (snd (loop r st)) = loop_tx r st"
  "sent CHILD_ID_HUM (snd (loop r st)) = loop_tx r st"
  by (simp_all add: loop_snd sent_append sthm_sent loop_pre_simps loop_tx_def)
     (simp_all add: sent_def child_ids)

lemma loop_measureCount:
  "measureCount (fst (loop r st)) = (if loop_tx r st then 0 else measureCount st + 1)"
  by (simp add: loop_fst sthm_measureCount loop_pre_simps loop_tx_def tx_flag_iff)

lemma loop_sendBattery:
  "sendBattery (fst (loop r st)) =
     (if loop_tx r st \<and> sendBattery st + 1 > 60 then 0 else sendBattery st + 1)"
  by (simp add: loop_fst sthm_sendBattery loop_pre_simps loop_tx_def)

lemma loop_battery:
  "battery_reported (snd (loop r st)) \<longleftrightarrow>
     loop_tx r st \<and> sendBattery st + 1 > 60 \<and> vcc r \<noteq> - 1"
  by (simp add: loop_snd battery_reported_append sthm_battery loop_pre_simps loop_tx_def)
     (simp add: battery_reported_def child_ids)

lemma loop_last:
  "lastTemperature (fst (loop r st)) =
     (if loop_tx r st then reading_temperature st (env r) else lastTemperature st)"
  "lastHumidity (fst (loop r st)) =
     (if loop_tx r st then humidityPercent (env r) else lastHumidity st)"
  "raHum (fst (loop r st)) = addValue (of_int_flt (humidityPercent (env r))) (raHum st)"
  "isMetric (fst (loop r st)) = isMetric st"
  by (simp_all add: loop_fst sthm_last sthm_frame loop_pre_simps loop_tx_def)


lemma abs_macro_Fin: "abs_macro (Fin x) = Fin \<bar>x\<bar>"
  by (simp add: abs_macro_def)

subsection \<open>Digital channels\<close>

text \<open>
  Claim C1, as the sketches have it. In the Sensebender sketch and in the door and
  motion sketch, a wake cycle reports a digital channel exactly when the level just
  read differs from the stored one, and afterwards the stored value is the level
  just read. The ProMini3v sketch is compiled without \<open>SEND_ONLY_CHANGES\<close>: it
  reports both channels on every cycle and stores nothing.
\<close>

theorem digital_channels_report_on_change:
  "(sent CHILD_ID_DOOR (snd (loop r st)) \<longleftrightarrow> door_pin r \<noteq> old_door_val st) \<and>
   (sent CHILD_ID_MOTION (snd (loop r st)) \<longleftrightarrow> motion_pin r \<noteq> old_motion_val st) \<and>
   old_door_val (fst (loop r st)) = door_pin r \<and>
   old_motion_val (fst (loop r st)) = motion_pin r \<and>
   (sent DOOR_ID (snd (loop_motion door motion s)) \<longleftrightarrow> door \<noteq> door_prev s) \<and>
   (sent MOTION_ID (snd (loop_motion door motion s)) \<longleftrightarrow> motion \<noteq> motion_prev s) \<and>
   door_prev (fst (loop_motion door motion s)) = door \<and>
   motion_prev (fst (loop_motion door motion s)) = motion \<and>
   loop_promini SEND_ONLY_CHANGES door motion s =
     (s, [Send DOOR_ID (tripped_str door), Send MOTION_ID (tripped_str motion)])"
proof -
  have motion_sketch:
    "(sent DOOR_ID (snd (loop_motion door motion s)) \<longleftrightarrow> door \<noteq> door_prev s) \<and>
     (sent MOTION_ID (snd (loop_motion door motion s)) \<longleftrightarrow> motion \<noteq> motion_prev s) \<and>
     door_prev (fst (loop_motion door motion s)) = door \<and>
     motion_prev (fst (loop_motion door motion s)) = motion"
    by (auto simp add: loop_motion_def sent_def DOOR_ID_def MOTION_ID_def)
  have promini:
    "loop_promini SEND_ONLY_CHANGES door motion s =
       (s, [Send DOOR_ID (tripped_str door), Send MOTION_ID (tripped_str motion)])"
    by (simp add: loop_promini_def SEND_ONLY_CHANGES_def)
  from motion_sketch promini show ?thesis
    by (simp only: loop_digital loop_digital_stored simp_thms)
qed

theorem digital_channels_report_on_change_witness:
  "sent CHILD_ID_DOOR (snd (loop sample_c init_state)) \<and>
   \<not> sent CHILD_ID_MOTION (snd (loop sample_c init_state)) \<and>
   old_door_val (fst (loop sample_c init_state)) \<and>
   \<not> old_motion_val (fst (loop sample_c init_state)) \<and>
   sent DOOR_ID (snd (loop_motion True False dm_init)) \<and>
   \<not> sent MOTION_ID (snd (loop_motion True False dm_init)) \<and>
   door_prev (fst (loop_motion True False dm_init)) \<and>
   \<not> motion_prev (fst (loop_motion True False dm_init)) \<and>
   loop_promini SEND_ONLY_CHANGES True False dm_init =
     (dm_init, [Send DOOR_ID (PStr ''1''), Send MOTION_ID (PStr ''0'')])"
  using digital_channels_report_on_change [of sample_c init_state True False dm_init]
  by (simp add: sample_c_def init_state_def dm_init_def tripped_str_def)

text \<open>
  The ProMini3v sketch sends the door value \<open>"1"\<close> in a first cycle and sends it
  again in the next cycle although the level has not changed.
\<close>

theorem promini_reports_unchanged_value:
  "snd (loop_promini SEND_ONLY_CHANGES True False dm_init) =
     [Send DOOR_ID (PStr ''1''), Send MOTION_ID (PStr ''0'')] \<and>
   snd (loop_promini SEND_ONLY_CHANGES True False
          (fst (loop_promini SEND_ONLY_CHANGES True False dm_init))) =
     [Send DOOR_ID (PStr ''1''), Send MOTION_ID (PStr ''0'')]"
  by (simp add: loop_promini_def SEND_ONLY_CHANGES_def tripped_str_def)

subsection \<open>Evaluation at concrete samples\<close>

lemmas eval_defs =
  sendTempHumidityMeasurements_def sendBattLevel_def tx_flag_def diffTemp_def diffHum_def
  reading_temperature_def abs_macro_def of_int_flt_def isnan_def trunc_long_def
  getAverage_def addValue_def clear_def AVERAGES_def
  TEMP_TRANSMIT_THRESHOLD_def HUMI_TRANSMIT_THRESHOLD_def FORCE_TRANSMIT_INTERVAL_def
  Let_def sent_def battery_reported_def child_ids round32_numeral


lemma warm_state_eq:
  "warm_state =
     \<lparr> measureCount = 2, sendBattery = 2, isMetric = True, transmission_occured = False,
       lastTemperature = Fin 20, lastHumidity = 40, lastBattery = 3300,
       old_door_val = False, old_motion_val = False, raHum = [Fin 40, Fin 40] \<rparr>"
  by (simp add: warm_state_def setup_measurements_def loop_def init_state_def sample_a_def
      eval_defs)

subsection \<open>The cycle counter\<close>

text \<open>
  Claim C3, as the code has it. After a wake cycle \<open>measureCount\<close> is 0 when
  temperature and humidity were sent in that cycle, whatever triggered the sending
  (the force interval, a threshold, an undefined humidity difference), and one more
  than before otherwise. A cycle in which the counter exceeds
  \<open>FORCE_TRANSMIT_INTERVAL\<close> always sends.
\<close>

theorem measureCount_after_cycle:
  "measureCount (fst (loop r st)) =
     (if sent CHILD_ID_TEMP (snd (loop r st)) then 0 else measureCount st + 1) \<and>
   (measureCount st + 1 > FORCE_TRANSMIT_INTERVAL \<longrightarrow> sent CHILD_ID_TEMP (snd (loop r st)))"
  by (simp add: loop_measureCount loop_sent_th) (simp add: loop_tx_def tx_flag_iff)

theorem measureCount_after_cycle_witness:
  "measureCount (warm_state\<lparr>measureCount := 30\<rparr>) + 1 > FORCE_TRANSMIT_INTERVAL \<and>
   sent CHILD_ID_TEMP (snd (loop sample_a (warm_state\<lparr>measureCount := 30\<rparr>))) \<and>
   measureCount (fst (loop sample_a (warm_state\<lparr>measureCount := 30\<rparr>))) = 0 \<and>
   \<not> sent CHILD_ID_TEMP (snd (loop sample_a warm_state)) \<and>
   measureCount (fst (loop sample_a warm_state)) = 3"
  using measureCount_after_cycle [of sample_a "warm_state\<lparr>measureCount := 30\<rparr>"]
    measureCount_after_cycle [of sample_a warm_state]
  by (simp add: warm_state_eq loop_def sample_a_def eval_defs)

text \<open>
  A cycle whose temperature moved by one degree resets the counter from 2 to 0
  although the force interval is not exceeded.
\<close>

theorem measureCount_reset_without_force:
  "measureCount warm_state = 2 \<and>
   \<not> measureCount warm_state + 1 > FORCE_TRANSMIT_INTERVAL \<and>
   measureCount (fst (loop sample_b warm_state)) = 0"
  by (simp add: warm_state_eq loop_def sample_b_def eval_defs)

lemma loop_th_reports:
  "filter (\<lambda>m. is_child CHILD_ID_TEMP m \<or> is_child CHILD_ID_HUM m) (snd (loop r st)) =
     (if loop_tx r st
      then [Send CHILD_ID_TEMP (PFloat (reading_temperature st (env r)) 1),
            Send CHILD_ID_HUM (PInt (humidityPercent (env r)))]
      else [])"
proof -
  have "filter (\<lambda>m. is_child CHILD_ID_TEMP m \<or> is_child CHILD_ID_HUM m)
          (snd (sendTempHumidityMeasurements f d v s)) =
        (if tx_flag f (diffTemp s d) (diffHum s d)
         then [Send CHILD_ID_TEMP (PFloat (reading_temperature s d) 1),
               Send CHILD_ID_HUM (PInt (humidityPercent d))]
         else [])" for f d v s
    by (simp add: sendTempHumidityMeasurements_def sendBattLevel_def Let_def child_ids
        split: prod.splits)
  then show ?thesis
    by (simp add: loop_snd loop_pre_simps loop_tx_def) (simp add: child_ids)
qed

subsection \<open>Temperature and humidity travel together\<close>

text \<open>
  Claim C4, as the code has it. There is one transmit flag for the pair: in every
  wake cycle temperature is sent if and only if humidity is sent, whatever set the
  flag, and the two messages carry the temperature and the humidity of the sample
  read in that cycle.
\<close>

theorem temp_and_hum_sent_together:
  "(sent CHILD_ID_TEMP (snd (loop r st)) \<longleftrightarrow> sent CHILD_ID_HUM (snd (loop r st))) \<and>
   filter (\<lambda>m. is_child CHILD_ID_TEMP m \<or> is_child CHILD_ID_HUM m) (snd (loop r st)) =
     (if sent CHILD_ID_TEMP (snd (loop r st))
      then [Send CHILD_ID_TEMP (PFloat (reading_temperature st (env r)) 1),
            Send CHILD_ID_HUM (PInt (humidityPercent (env r)))]
      else [])"
  by (simp only: loop_th_reports loop_sent_th simp_thms)

theorem temp_and_hum_sent_together_witness:
  "sent CHILD_ID_TEMP (snd (loop sample_c warm_state)) \<and>
   sent CHILD_ID_HUM (snd (loop sample_c warm_state)) \<and>
   filter (\<lambda>m. is_child CHILD_ID_TEMP m \<or> is_child CHILD_ID_HUM m)
     (snd (loop sample_c warm_state)) =
     [Send CHILD_ID_TEMP (PFloat (Fin 20) 1), Send CHILD_ID_HUM (PInt 50)]"
  using temp_and_hum_sent_together [of sample_c warm_state]
  by (simp add: warm_state_eq loop_def sample_c_def eval_defs)

text \<open>
  With the humidity unchanged and no force, a temperature one degree higher makes
  the cycle send the humidity as well.
\<close>

theorem temperature_trigger_sends_humidity:
  "\<not> measureCount warm_state + 1 > FORCE_TRANSMIT_INTERVAL \<and>
   \<not> fgt (diffHum warm_state (env sample_b)) HUMI_TRANSMIT_THRESHOLD \<and>
   \<not> isnan (diffHum warm_state (env sample_b)) \<and>
   fgt (diffTemp warm_state (env sample_b)) TEMP_TRANSMIT_THRESHOLD \<and>
   snd (loop sample_b warm_state) =
     [Send CHILD_ID_TEMP (PFloat (Fin 21) 1), Send CHILD_ID_HUM (PInt 40)]"
  by (simp add: warm_state_eq loop_def sample_b_def eval_defs)

subsection \<open>The humidity that is sent\<close>



subsection \<open>Operations on converted integers\<close>

lemma fadd_zero_of_int: "fadd (of_int_flt h) (Fin 0) = of_int_flt h"
  unfolding of_int_flt_def fadd.simps add_0_right round32_of_int_idem ..

lemma fadd_of_int_same:
  "fadd (of_int_flt h) (of_int_flt h) = Fin (round32 (of_int h) + round32 (of_int h))"
  unfolding of_int_flt_def fadd.simps round32_of_int_double ..

lemma fdiv_one_of_int: "fdiv (of_int_flt h) (Fin 1) = of_int_flt h"
proof -
  have "fdiv (of_int_flt h) (Fin 1) = Fin (round32 (round32 (of_int h) / 1))"
    unfolding of_int_flt_def by simp
  also have "\<dots> = of_int_flt h"
    unfolding of_int_flt_def div_by_1 round32_of_int_idem ..
  finally show ?thesis .
qed

lemma half_sum: "(a + a) / 2 = (a::real)"
  by simp

lemma fdiv_two_of_int:
  "fdiv (Fin (round32 (of_int h) + round32 (of_int h))) (Fin 2) = of_int_flt h"
proof -
  have "fdiv (Fin (round32 (of_int h) + round32 (of_int h))) (Fin 2) =
        Fin (round32 ((round32 (of_int h) + round32 (of_int h)) / 2))"
    by (simp only: fdiv.simps) simp
  also have "\<dots> = of_int_flt h"
    unfolding of_int_flt_def half_sum round32_of_int_idem ..
  finally show ?thesis .
qed

lemma getAverage_single: "getAverage [of_int_flt h] = of_int_flt h"
proof -
  have "getAverage [of_int_flt h] = fdiv (fadd (of_int_flt h) (Fin 0)) (Fin 1)"
    by (simp add: getAverage_def)
  then show ?thesis
    by (simp only: fadd_zero_of_int fdiv_one_of_int)
qed

lemma getAverage_pair: "getAverage [of_int_flt h, of_int_flt h] = of_int_flt h"
proof -
  have "getAverage [of_int_flt h, of_int_flt h] =
        fdiv (fadd (of_int_flt h) (fadd (of_int_flt h) (Fin 0))) (Fin 2)"
    by (simp add: getAverage_def)
  then show ?thesis
    by (simp only: fadd_zero_of_int fadd_of_int_same fdiv_two_of_int)
qed

lemma fsub_same: "fsub (Fin a) (Fin a) = Fin 0"
  by (simp add: round32_zero)

lemma reading_temperature_Fin:
  "reading_temperature st d =
     Fin (round32 (round32 (of_int (if isMetric st then celsiusHundredths d
                                     else fahrenheitHundredths d)) / 100))"
  by (simp add: reading_temperature_def of_int_flt_def)

subsection \<open>The initial sentinel\<close>

lemma sentinel_diffHum:
  assumes "lastHumidity st = - 100" "raHum st = clear" "0 \<le> humidityPercent d"
  shows "fgt (diffHum st d) HUMI_TRANSMIT_THRESHOLD"
proof -
  let ?f = "round32 (real_of_int (humidityPercent d))"
  let ?y = "- 100 - ?f"
  have f: "0 \<le> ?f" using assms(3) by (rule round32_of_int_nonneg)
  then have "\<bar>?y\<bar> \<ge> 1" "?y < 0" by simp_all
  from round32_neg [OF normal_one [OF this(1)] this(2)] f
  have y: "round32 ?y < - 50" by simp
  have "diffHum st d = abs_macro (Fin (round32 ?y))"
    using assms(1,2)
    by (simp add: diffHum_def clear_def addValue_def AVERAGES_def getAverage_single)
       (simp add: of_int_flt_def round32_numeral)
  with y show ?thesis
    by (simp add: abs_macro_def HUMI_TRANSMIT_THRESHOLD_def)
qed

subsection \<open>Runs of wake cycles\<close>

lemma run_Cons:
  "snd (run (r # rs) st) = snd (loop r st) # snd (run rs (fst (loop r st)))"
  "fst (run (r # rs) st) = fst (run rs (fst (loop r st)))"
  by (simp_all add: split_def Let_def)

lemma setup_measurements_fields:
  "measureCount (fst (setup_measurements cfg r)) = 0"
  "sendBattery (fst (setup_measurements cfg r)) = 0"
  "isMetric (fst (setup_measurements cfg r)) = cfg"
  "raHum (fst (setup_measurements cfg r)) = [of_int_flt (humidityPercent (env r))]"
  by (simp_all add: setup_measurements_def split_def Let_def sendBattLevel_def
      sthm_measureCount sthm_sendBattery sthm_frame init_state_def clear_def addValue_def
      AVERAGES_def)

text \<open>
  Neither counter leaves the range of a 16-bit \<open>int\<close>: after \<open>setup\<close> and any
  number of wake cycles, \<open>measureCount\<close> is between 0 and 30 and \<open>sendBattery\<close>
  between 0 and 90.
\<close>

lemma counters_step:
  assumes "0 \<le> measureCount st" "measureCount st \<le> 30"
    "0 \<le> sendBattery st" "sendBattery st \<le> 60 + measureCount st"
  shows "0 \<le> measureCount (fst (loop r st)) \<and> measureCount (fst (loop r st)) \<le> 30 \<and>
         0 \<le> sendBattery (fst (loop r st)) \<and>
         sendBattery (fst (loop r st)) \<le> 60 + measureCount (fst (loop r st))"
proof (cases "loop_tx r st")
  case True
  with assms show ?thesis by (simp add: loop_measureCount loop_sendBattery)
next
  case False
  then have "\<not> measureCount st + 1 > FORCE_TRANSMIT_INTERVAL"
    by (simp add: loop_tx_def tx_flag_iff)
  with False assms show ?thesis
    by (simp add: loop_measureCount loop_sendBattery FORCE_TRANSMIT_INTERVAL_def)
qed

lemma counters_run:
  assumes "0 \<le> measureCount st" "measureCount st \<le> 30"
    "0 \<le> sendBattery st" "sendBattery st \<le> 60 + measureCount st"
  shows "0 \<le> measureCount (fst (run rs st)) \<and> measureCount (fst (run rs st)) \<le> 30 \<and>
         0 \<le> sendBattery (fst (run rs st)) \<and>
         sendBattery (fst (run rs st)) \<le> 60 + measureCount (fst (run rs st))"
  using assms
proof (induction rs arbitrary: st)
  case Nil
  then show ?case by simp
next
  case (Cons r rs)
  from counters_step [OF Cons.prems, of r] show ?case
    unfolding run_Cons by (intro Cons.IH) simp_all
qed

lemma counters_bounded:
  "0 \<le> measureCount (fst (run rs (fst (setup_measurements cfg r)))) \<and>
   measureCount (fst (run rs (fst (setup_measurements cfg r)))) \<le> 30 \<and>
   0 \<le> sendBattery (fst (run rs (fst (setup_measurements cfg r)))) \<and>
   sendBattery (fst (run rs (fst (setup_measurements cfg r)))) \<le> 90"
  using counters_run [of "fst (setup_measurements cfg r)" rs]
  by (simp add: setup_measurements_fields)

subsection \<open>Identical readings and the force interval\<close>

lemma steady_no_threshold:
  assumes "steady e st"
  shows "\<not> isnan (diffHum st e) \<and> \<not> fgt (diffTemp st e) TEMP_TRANSMIT_THRESHOLD \<and>
         \<not> fgt (diffHum st e) HUMI_TRANSMIT_THRESHOLD"
proof -
  have zero: "abs_macro (Fin 0) = Fin 0"
    by (simp add: abs_macro_def)
  from assms have "lastTemperature st = reading_temperature st e"
    by (simp add: steady_def)
  then have t: "diffTemp st e = Fin 0"
    by (simp add: diffTemp_def reading_temperature_Fin round32_zero zero)
  from assms have
    "addValue (of_int_flt (humidityPercent e)) (raHum st) =
       [of_int_flt (humidityPercent e), of_int_flt (humidityPercent e)]"
    by (auto simp add: steady_def addValue_def AVERAGES_def)
  moreover from assms have "lastHumidity st = humidityPercent e"
    by (simp add: steady_def)
  ultimately have "diffHum st e =
      abs_macro (fsub (of_int_flt (humidityPercent e)) (of_int_flt (humidityPercent e)))"
    by (simp only: diffHum_def getAverage_pair)
  then have h: "diffHum st e = Fin 0"
    by (simp only: of_int_flt_def fsub_same zero)
  show ?thesis
    by (simp add: t h isnan_def TEMP_TRANSMIT_THRESHOLD_def HUMI_TRANSMIT_THRESHOLD_def)
qed

lemma steady_loop_tx:
  assumes "steady (env r) st"
  shows "loop_tx r st \<longleftrightarrow> measureCount st + 1 > FORCE_TRANSMIT_INTERVAL"
  using steady_no_threshold [OF assms] by (simp add: loop_tx_def tx_flag_iff)

lemma steady_loop:
  assumes "steady (env r) st"
  shows "steady (env r) (fst (loop r st))"
  using assms
  by (auto simp add: steady_def loop_last reading_temperature_def addValue_def AVERAGES_def)

lemma sendBattLevel_frame:
  "lastTemperature (fst (sendBattLevel f v st)) = lastTemperature st"
  "lastHumidity (fst (sendBattLevel f v st)) = lastHumidity st"
  "raHum (fst (sendBattLevel f v st)) = raHum st"
  "isMetric (fst (sendBattLevel f v st)) = isMetric st"
  "old_door_val (fst (sendBattLevel f v st)) = old_door_val st"
  "old_motion_val (fst (sendBattLevel f v st)) = old_motion_val st"
  by (simp_all add: sendBattLevel_def Let_def)

lemma steady_setup:
  assumes "0 \<le> humidityPercent (env r)"
  shows "sent CHILD_ID_TEMP (snd (setup_measurements cfg r)) \<and>
         steady (env r) (fst (setup_measurements cfg r))"
proof -
  let ?st = "init_state\<lparr>isMetric := cfg, raHum := clear\<rparr>"
  have "lastHumidity ?st = - 100" "raHum ?st = clear"
    by (simp_all add: init_state_def)
  from sentinel_diffHum [OF this assms]
  have tx: "tx_flag False (diffTemp ?st (env r)) (diffHum ?st (env r))"
    by (simp add: tx_flag_iff)
  have "sent CHILD_ID_TEMP (snd (setup_measurements cfg r))"
    using tx by (simp add: setup_measurements_def split_def Let_def sent_append sthm_sent)
  moreover have "steady (env r) (fst (setup_measurements cfg r))"
    using tx
    by (simp add: setup_measurements_def split_def Let_def steady_def sendBattLevel_frame
        sthm_last sthm_frame reading_temperature_def clear_def addValue_def AVERAGES_def)
  ultimately show ?thesis by simp
qed

lemma idle_run:
  assumes "steady e st" "\<forall>r\<in>set rs. env r = e"
    "measureCount st + int (length rs) \<le> FORCE_TRANSMIT_INTERVAL"
  shows "(\<forall>out\<in>set (snd (run rs st)). \<not> sent CHILD_ID_TEMP out) \<and>
         steady e (fst (run rs st)) \<and>
         measureCount (fst (run rs st)) = measureCount st + int (length rs)"
  using assms
proof (induction rs arbitrary: st)
  case Nil
  then show ?case by simp
next
  case (Cons r rs)
  from Cons.prems have e: "env r = e" and st: "steady (env r) st" by simp_all
  from Cons.prems have quiet: "\<not> loop_tx r st"
    by (simp add: steady_loop_tx [OF st])
  have next_steady: "steady e (fst (loop r st))"
    using steady_loop [OF st] e by simp
  have count: "measureCount (fst (loop r st)) = measureCount st + 1"
    using quiet by (simp add: loop_measureCount)
  have "(\<forall>out\<in>set (snd (run rs (fst (loop r st)))). \<not> sent CHILD_ID_TEMP out) \<and>
        steady e (fst (run rs (fst (loop r st)))) \<and>
        measureCount (fst (run rs (fst (loop r st)))) =
          measureCount (fst (loop r st)) + int (length rs)"
    using Cons.prems count by (intro Cons.IH next_steady) simp_all
  with quiet count show ?case
    unfolding run_Cons by (simp add: loop_sent_th)
qed

text \<open>
  Claim C5, as the code runs. After \<open>setup\<close> has sent the first sample, thirty wake
  cycles with the same temperature and humidity send neither; the forced
  transmission comes in the thirty-first cycle, when \<open>measureCount\<close> has become 31
  and exceeds \<open>FORCE_TRANSMIT_INTERVAL\<close>.
\<close>

theorem identical_readings_force_on_cycle_31:
  assumes "length rs = 30" and "\<forall>r\<in>set rs. env r = env r0" and "env r31 = env r0"
    and "0 \<le> humidityPercent (env r0)"
  shows "sent CHILD_ID_TEMP (snd (setup_measurements cfg r0)) \<and>
         (\<forall>out\<in>set (snd (run rs (fst (setup_measurements cfg r0)))).
            \<not> sent CHILD_ID_TEMP out) \<and>
         measureCount (fst (run rs (fst (setup_measurements cfg r0)))) = 30 \<and>
         sent CHILD_ID_TEMP (snd (loop r31 (fst (run rs (fst (setup_measurements cfg r0))))))"
proof -
  let ?st0 = "fst (setup_measurements cfg r0)"
  from steady_setup [OF assms(4)] have first: "sent CHILD_ID_TEMP (snd (setup_measurements cfg r0))"
    and st0: "steady (env r0) ?st0" by simp_all
  have idle: "(\<forall>out\<in>set (snd (run rs ?st0)). \<not> sent CHILD_ID_TEMP out) \<and>
      steady (env r0) (fst (run rs ?st0)) \<and>
      measureCount (fst (run rs ?st0)) = measureCount ?st0 + int (length rs)"
    using assms(1,2)
    by (intro idle_run st0) (simp_all add: setup_measurements_fields FORCE_TRANSMIT_INTERVAL_def)
  then have count: "measureCount (fst (run rs ?st0)) = 30"
    using assms(1) by (simp add: setup_measurements_fields)
  then have "loop_tx r31 (fst (run rs ?st0))"
    by (simp add: loop_tx_def tx_flag_iff FORCE_TRANSMIT_INTERVAL_def)
  with first idle count show ?thesis by (simp add: loop_sent_th)
qed

theorem identical_readings_force_on_cycle_31_witness:
  "length (replicate 30 sample_a) = 30 \<and>
   sent CHILD_ID_TEMP (snd (setup_measurements True sample_a)) \<and>
   list_all (\<lambda>out. \<not> sent CHILD_ID_TEMP out)
     (snd (run (replicate 30 sample_a) (fst (setup_measurements True sample_a)))) \<and>
   measureCount (fst (run (replicate 30 sample_a) (fst (setup_measurements True sample_a)))) = 30 \<and>
   sent CHILD_ID_TEMP
     (snd (loop sample_a (fst (run (replicate 30 sample_a) (fst (setup_measurements True sample_a))))))"
proof -
  have "0 \<le> humidityPercent (env sample_a)" by (simp add: sample_a_def)
  from identical_readings_force_on_cycle_31 [of "replicate 30 sample_a" sample_a sample_a True, OF _ _ _ this]
  show ?thesis by (simp add: list_all_iff)
qed

subsection \<open>Initial values and first readings\<close>

lemma sthm_lastBattery:
  "\<not> sendBattery st > 60 \<Longrightarrow>
     lastBattery (fst (sendTempHumidityMeasurements f d v st)) = lastBattery st \<and>
     \<not> battery_reported (snd (sendTempHumidityMeasurements f d v st))"
  by (simp add: sendTempHumidityMeasurements_def Let_def battery_reported_def child_ids)

lemma setup_measurements_battery:
  assumes "vcc r \<noteq> - 100"
  shows "battery_reported (snd (setup_measurements cfg r)) \<and>
         lastBattery (fst (setup_measurements cfg r)) = vcc r"
proof -
  let ?st = "init_state\<lparr>isMetric := cfg, raHum := clear\<rparr>"
  have "\<not> sendBattery ?st > 60" "lastBattery ?st = - 100"
    by (simp_all add: init_state_def)
  from sthm_lastBattery [OF this(1), of False "env r" "vcc r"] this(2) assms
  show ?thesis
    by (simp add: setup_measurements_def split_def Let_def battery_reported_append
        sendBattLevel_def battery_reported_def)
qed

lemma setup_measurements_digital:
  "old_door_val (fst (setup_measurements cfg r)) = False"
  "old_motion_val (fst (setup_measurements cfg r)) = False"
  by (simp_all add: setup_measurements_def split_def Let_def sendBattLevel_frame sthm_frame
      init_state_def)

text \<open>
  Claim C8, as the code has it. The stored temperature, humidity and battery value
  start at the sentinel -100: the first sample is sent whenever its humidity is at
  least zero percent, the first battery reading whenever it is not -100, and the
  stored values become the ones sent. The stored door and motion values start at
  \<open>false\<close>, which is an ordinary level: in all sketches that store them, the first
  reading of a digital channel is sent exactly when it is HIGH.
\<close>

theorem first_readings_after_initialization:
  "lastTemperature init_state = Fin (- 100) \<and> lastHumidity init_state = - 100 \<and>
   lastBattery init_state = - 100 \<and>
   old_door_val init_state = False \<and> old_motion_val init_state = False \<and>
   door_prev dm_init = False \<and> motion_prev dm_init = False \<and>
   (0 \<le> humidityPercent (env r) \<longrightarrow>
      sent CHILD_ID_TEMP (snd (setup_measurements cfg r)) \<and>
      lastTemperature (fst (setup_measurements cfg r)) =
        reading_temperature (fst (setup_measurements cfg r)) (env r) \<and>
      lastHumidity (fst (setup_measurements cfg r)) = humidityPercent (env r)) \<and>
   (vcc r \<noteq> - 100 \<longrightarrow>
      battery_reported (snd (setup_measurements cfg r)) \<and>
      lastBattery (fst (setup_measurements cfg r)) = vcc r) \<and>
   (sent CHILD_ID_DOOR (snd (loop r1 (fst (setup_measurements cfg r)))) \<longleftrightarrow> door_pin r1) \<and>
   (sent CHILD_ID_MOTION (snd (loop r1 (fst (setup_measurements cfg r)))) \<longleftrightarrow> motion_pin r1) \<and>
   (sent DOOR_ID (snd (loop_motion door motion dm_init)) \<longleftrightarrow> door) \<and>
   (sent MOTION_ID (snd (loop_motion door motion dm_init)) \<longleftrightarrow> motion)"
proof -
  have init:
    "lastTemperature init_state = Fin (- 100) \<and> lastHumidity init_state = - 100 \<and>
     lastBattery init_state = - 100 \<and>
     old_door_val init_state = False \<and> old_motion_val init_state = False \<and>
     door_prev dm_init = False \<and> motion_prev dm_init = False"
    by (simp add: init_state_def dm_init_def)
  have analog:
    "0 \<le> humidityPercent (env r) \<longrightarrow>
      sent CHILD_ID_TEMP (snd (setup_measurements cfg r)) \<and>
      lastTemperature (fst (setup_measurements cfg r)) =
        reading_temperature (fst (setup_measurements cfg r)) (env r) \<and>
      lastHumidity (fst (setup_measurements cfg r)) = humidityPercent (env r)"
    using steady_setup [of r cfg] by (simp add: steady_def)
  have battery:
    "vcc r \<noteq> - 100 \<longrightarrow>
      battery_reported (snd (setup_measurements cfg r)) \<and>
      lastBattery (fst (setup_measurements cfg r)) = vcc r"
    using setup_measurements_battery [of r cfg] by simp
  have digital:
    "(sent CHILD_ID_DOOR (snd (loop r1 (fst (setup_measurements cfg r)))) \<longleftrightarrow> door_pin r1) \<and>
     (sent CHILD_ID_MOTION (snd (loop r1 (fst (setup_measurements cfg r)))) \<longleftrightarrow> motion_pin r1)"
    by (simp add: loop_digital setup_measurements_digital)
  have motion_sketch:
    "(sent DOOR_ID (snd (loop_motion door motion dm_init)) \<longleftrightarrow> door) \<and>
     (sent MOTION_ID (snd (loop_motion door motion dm_init)) \<longleftrightarrow> motion)"
    by (auto simp add: loop_motion_def dm_init_def sent_def DOOR_ID_def MOTION_ID_def)
  from init analog battery digital motion_sketch show ?thesis by blast
qed

theorem first_readings_after_initialization_witness:
  "0 \<le> humidityPercent (env sample_a) \<and> vcc sample_a \<noteq> - 100 \<and>
   sent CHILD_ID_TEMP (snd (setup_measurements True sample_a)) \<and>
   lastTemperature (fst (setup_measurements True sample_a)) = Fin 20 \<and>
   lastHumidity (fst (setup_measurements True sample_a)) = 40 \<and>
   battery_reported (snd (setup_measurements True sample_a)) \<and>
   lastBattery (fst (setup_measurements True sample_a)) = 3300 \<and>
   sent CHILD_ID_DOOR (snd (loop sample_c (fst (setup_measurements True sample_a)))) \<and>
   \<not> sent CHILD_ID_MOTION (snd (loop sample_c (fst (setup_measurements True sample_a)))) \<and>
   sent DOOR_ID (snd (loop_motion True False dm_init)) \<and>
   \<not> sent MOTION_ID (snd (loop_motion True False dm_init))"
proof -
  have "0 \<le> humidityPercent (env sample_a)" "vcc sample_a \<noteq> - 100"
    "door_pin sample_c" "\<not> motion_pin sample_c" "vcc sample_a = 3300"
    "humidityPercent (env sample_a) = 40"
    "reading_temperature (fst (setup_measurements True sample_a)) (env sample_a) = Fin 20"
    by (simp_all add: sample_a_def sample_c_def reading_temperature_def of_int_flt_def
        setup_measurements_fields round32_numeral)
  with first_readings_after_initialization [of sample_a True sample_c True False]
  show ?thesis by simp
qed

text \<open>
  A door that is closed (LOW) at the first reading is not reported, neither by the
  Sensebender sketch nor by the door and motion sketch.
\<close>

theorem first_low_door_reading_not_sent:
  "\<not> door_pin sample_a \<and>
   \<not> sent CHILD_ID_DOOR (snd (setup_measurements True sample_a)) \<and>
   \<not> sent CHILD_ID_DOOR (snd (loop sample_a (fst (setup_measurements True sample_a)))) \<and>
   snd (loop_motion False False dm_init) = []"
  by (simp add: setup_measurements_def init_state_def loop_def sample_a_def loop_motion_def
      dm_init_def eval_defs)

subsection \<open>Test mode\<close>

lemma blink_ok_no_result:
  assumes "blink_ok tr = Some y"
  shows False
  by (rule blink_ok.raw_induct [where P = "\<lambda>_ _. False", OF _ assms]) blast

lemma selftest_failed_no_result:
  assumes "selftest_failed tr = Some y"
  shows False
  by (rule selftest_failed.raw_induct [where P = "\<lambda>_ _. False", OF _ assms]) blast

lemma testMode_never_returns: "testMode p = None"
proof (cases "testMode p")
  case None
  then show ?thesis .
next
  case (Some y)
  then show ?thesis
    using blink_ok_no_result selftest_failed_no_result
    by (auto simp: testMode_def Let_def split: if_splits)
qed

lemma selftest_failed_trace_same: "selftest_failed_trace n tr = tr"
  by (induction n) simp_all

text \<open>
  Claim C9, as the code runs. When fewer than three probes pass, \<open>testMode\<close> never
  returns, so \<open>setup\<close> entered with the test pin low never reaches the sensor code;
  but the loop it ends in has an empty body: the only LED write of the whole
  routine is the one that switches the LED on at its start, however long the loop
  runs. The serial output is not part of the model.
\<close>

theorem selftest_failure_halts_without_blinking:
  "selftest_count p \<noteq> 3 \<longrightarrow>
     testMode p = None \<and> setup_sketch False p cfg r = None \<and>
     testMode_trace p n = [LedWrite True]"
  by (simp add: testMode_never_returns setup_sketch_def testMode_trace_def
      selftest_failed_trace_same)

theorem selftest_failure_halts_without_blinking_witness:
  "selftest_count flash_broken = 2 \<and>
   testMode flash_broken = None \<and> setup_sketch False flash_broken True sample_a = None \<and>
   testMode_trace flash_broken 1000 = [LedWrite True] \<and>
   selftest_count all_healthy = 3 \<and>
   testMode_trace all_healthy 1 =
     [LedWrite True, LedWrite True, Delay 200, LedWrite False, Delay 200]"
proof -
  have "selftest_count flash_broken = 2" "selftest_count all_healthy = 3"
    by (simp_all add: selftest_count_def flash_broken_def all_healthy_def)
  moreover from this have "testMode_trace all_healthy 1 =
     [LedWrite True, LedWrite True, Delay 200, LedWrite False, Delay 200]"
    by (simp add: testMode_trace_def)
  ultimately show ?thesis
    using selftest_failure_halts_without_blinking [of flash_broken True sample_a 1000]
    by simp
qed

subsection \<open>Defined values on every run\<close>

lemma foldr_fadd_Fin:
  "foldr fadd (map Fin ws) (Fin 0) = Fin (foldr (\<lambda>a b. round32 (a + b)) ws 0)"
  by (induction ws) simp_all

lemma getAverage_Fin:
  assumes "ws \<noteq> []"
  shows "getAverage (map Fin ws) =
         Fin (round32 (foldr (\<lambda>a b. round32 (a + b)) ws 0 / of_nat (length ws)))"
  using assms by (simp add: getAverage_def foldr_fadd_Fin)

lemma diffTemp_Fin:
  assumes "lastTemperature st = Fin lt"
  shows "diffTemp st d =
         Fin \<bar>round32 (lt - round32 (round32 (of_int
           (if isMetric st then celsiusHundredths d else fahrenheitHundredths d)) / 100))\<bar>"
  using assms by (simp add: diffTemp_def reading_temperature_Fin abs_macro_Fin)

lemma diffHum_Fin:
  assumes "raHum st = map Fin ws"
  shows "diffHum st d =
         Fin \<bar>round32 (round32 (of_int (lastHumidity st)) -
           round32 (foldr (\<lambda>a b. round32 (a + b))
                      (take 2 (round32 (of_int (humidityPercent d)) # ws)) 0 /
                    of_nat (length (take 2 (round32 (of_int (humidityPercent d)) # ws)))))\<bar>"
proof -
  let ?win = "take 2 (round32 (of_int (humidityPercent d)) # ws)"
  have "addValue (of_int_flt (humidityPercent d)) (raHum st) = map Fin ?win"
    using assms by (simp add: addValue_def AVERAGES_def of_int_flt_def take_map)
  moreover have "getAverage (map Fin ?win) =
      Fin (round32 (foldr (\<lambda>a b. round32 (a + b)) ?win 0 / of_nat (length ?win)))"
    by (rule getAverage_Fin) simp
  ultimately show ?thesis
    by (simp only: diffHum_def of_int_flt_def fsub.simps abs_macro_Fin)
qed

lemma defined_loop:
  assumes "lastTemperature st = Fin lt" "raHum st = map Fin ws"
  shows "\<exists>lt' ws'. lastTemperature (fst (loop r st)) = Fin lt' \<and>
                   raHum (fst (loop r st)) = map Fin ws'"
proof -
  have "raHum (fst (loop r st)) =
        map Fin (take 2 (round32 (of_int (humidityPercent (env r))) # ws))"
    using assms(2) by (simp add: loop_last addValue_def AVERAGES_def of_int_flt_def take_map)
  moreover have "\<exists>lt'. lastTemperature (fst (loop r st)) = Fin lt'"
    using assms(1) by (simp add: loop_last reading_temperature_Fin)
  ultimately show ?thesis by blast
qed

lemma defined_setup:
  "\<exists>lt ws. lastTemperature (fst (setup_measurements cfg r)) = Fin lt \<and>
           raHum (fst (setup_measurements cfg r)) = map Fin ws"
proof -
  have "raHum (fst (setup_measurements cfg r)) =
        map Fin [round32 (of_int (humidityPercent (env r)))]"
    by (simp add: setup_measurements_fields of_int_flt_def)
  moreover have "\<exists>lt. lastTemperature (fst (setup_measurements cfg r)) = Fin lt"
    by (simp add: setup_measurements_def split_def Let_def sendBattLevel_frame sthm_last
        reading_temperature_Fin init_state_def)
  ultimately show ?thesis by blast
qed

lemma defined_run:
  assumes "\<exists>lt ws. lastTemperature st = Fin lt \<and> raHum st = map Fin ws"
  shows "\<exists>lt ws. lastTemperature (fst (run rs st)) = Fin lt \<and>
                 raHum (fst (run rs st)) = map Fin ws"
  using assms
proof (induction rs arbitrary: st)
  case Nil
  then show ?case by simp
next
  case (Cons r rs)
  from Cons.prems obtain lt ws where "lastTemperature st = Fin lt" "raHum st = map Fin ws"
    by blast
  from defined_loop [OF this] show ?case
    unfolding run_Cons by (rule Cons.IH)
qed


text \<open>
  On every run from \<open>setup\<close> the stored temperature and the samples of the window are
  finite, so neither difference is ever a NaN.
\<close>

lemma differences_never_nan:
  "\<not> isnan (diffTemp (fst (run rs (fst (setup_measurements cfg r0)))) d) \<and>
   \<not> isnan (diffHum (fst (run rs (fst (setup_measurements cfg r0)))) d)"
proof -
  from defined_run [OF defined_setup] obtain lt ws
    where "lastTemperature (fst (run rs (fst (setup_measurements cfg r0)))) = Fin lt"
      "raHum (fst (run rs (fst (setup_measurements cfg r0)))) = map Fin ws"
    by blast
  then show ?thesis
    by (simp only: diffTemp_Fin diffHum_Fin isnan_def flt.case simp_thms)
qed

subsection \<open>The transmit decision\<close>




subsection \<open>Battery reports\<close>

lemma quiet_run:
  assumes "sendBattery st + int (length rs) \<le> 60"
  shows "\<forall>out\<in>set (snd (run rs st)). \<not> battery_reported out"
  using assms
proof (induction rs arbitrary: st)
  case Nil
  then show ?case by simp
next
  case (Cons r rs)
  from Cons.prems have now: "\<not> battery_reported (snd (loop r st))"
    by (simp add: loop_battery)
  from Cons.prems have "sendBattery (fst (loop r st)) + int (length rs) \<le> 60"
    by (simp add: loop_sendBattery)
  from Cons.IH [OF this] now show ?case
    unfolding run_Cons by simp
qed

lemma idle_run_battery:
  assumes "steady e st" "\<forall>r\<in>set rs. env r = e"
    "measureCount st + int (length rs) \<le> FORCE_TRANSMIT_INTERVAL"
  shows "(\<forall>out\<in>set (snd (run rs st)). \<not> battery_reported out) \<and>
         sendBattery (fst (run rs st)) = sendBattery st + int (length rs)"
  using assms
proof (induction rs arbitrary: st)
  case Nil
  then show ?case by simp
next
  case (Cons r rs)
  from Cons.prems have e: "env r = e" and st: "steady (env r) st" by simp_all
  from Cons.prems have quiet: "\<not> loop_tx r st"
    by (simp add: steady_loop_tx [OF st])
  have next_steady: "steady e (fst (loop r st))"
    using steady_loop [OF st] e by simp
  have count: "measureCount (fst (loop r st)) = measureCount st + 1"
    "sendBattery (fst (loop r st)) = sendBattery st + 1"
    using quiet by (simp_all add: loop_measureCount loop_sendBattery)
  have "(\<forall>out\<in>set (snd (run rs (fst (loop r st)))). \<not> battery_reported out) \<and>
        sendBattery (fst (run rs (fst (loop r st)))) =
          sendBattery (fst (loop r st)) + int (length rs)"
    using Cons.prems count by (intro Cons.IH next_steady) simp_all
  with quiet count show ?case
    unfolding run_Cons by (simp add: loop_battery)
qed

lemma cycle31_state_facts:
  "steady (env sample_a) cycle31_state \<and> measureCount cycle31_state = 30 \<and>
   sendBattery cycle31_state = 30"
proof -
  let ?st0 = "fst (setup_measurements True sample_a)"
  have "0 \<le> humidityPercent (env sample_a)" by (simp add: sample_a_def)
  from steady_setup [OF this] have st0: "steady (env sample_a) ?st0" by simp
  have bound: "measureCount ?st0 + int (length (replicate 30 sample_a)) \<le> FORCE_TRANSMIT_INTERVAL"
    by (simp add: setup_measurements_fields FORCE_TRANSMIT_INTERVAL_def)
  have same: "\<forall>r\<in>set (replicate 30 sample_a). env r = env sample_a" by simp
  from idle_run [OF st0 same bound] idle_run_battery [OF st0 same bound]
  show ?thesis
    by (simp add: cycle31_state_def setup_measurements_fields)
qed

lemma cycle62_state_facts:
  "steady (env sample_a) cycle62_state \<and> measureCount cycle62_state = 30 \<and>
   sendBattery cycle62_state = 61 \<and>
   (\<forall>out\<in>set (snd (run (replicate 30 sample_a) (fst (loop sample_a cycle31_state)))).
      \<not> battery_reported out)"
proof -
  let ?st = "fst (loop sample_a cycle31_state)"
  from cycle31_state_facts have tx: "loop_tx sample_a cycle31_state"
    by (simp add: loop_tx_def tx_flag_iff FORCE_TRANSMIT_INTERVAL_def)
  have st: "steady (env sample_a) ?st"
    using cycle31_state_facts by (intro steady_loop) simp
  have mc: "measureCount ?st = 0" and sb: "sendBattery ?st = 31"
    using tx cycle31_state_facts by (simp_all add: loop_measureCount loop_sendBattery)
  have bound: "measureCount ?st + int (length (replicate 30 sample_a)) \<le> FORCE_TRANSMIT_INTERVAL"
    by (simp add: mc FORCE_TRANSMIT_INTERVAL_def)
  have same: "\<forall>r\<in>set (replicate 30 sample_a). env r = env sample_a" by simp
  from idle_run [OF st same bound] idle_run_battery [OF st same bound]
  show ?thesis
    by (simp add: cycle62_state_def mc sb)
qed

text \<open>
  Claim C7, as the code has it. A wake cycle reports the battery if and only if it
  sends temperature and humidity, the counter \<open>sendBattery\<close>, incremented in that
  cycle, exceeds 60, and the voltage read is not -1. The counter is set to 0 in the
  cycles that send with the counter above 60 and in no other; a reset of
  \<open>measureCount\<close> leaves it alone. Hence none of the 60 cycles that follow a cycle
  with a battery report, and none of the first 60 cycles after \<open>setup\<close> (which
  reports the battery once), reports the battery.
\<close>

theorem battery_reported_with_transmission:
  "(battery_reported (snd (loop r st)) \<longleftrightarrow>
      sent CHILD_ID_TEMP (snd (loop r st)) \<and> 60 < sendBattery st + 1 \<and> vcc r \<noteq> - 1) \<and>
   sendBattery (fst (loop r st)) =
     (if sent CHILD_ID_TEMP (snd (loop r st)) \<and> 60 < sendBattery st + 1 then 0
      else sendBattery st + 1) \<and>
   (battery_reported (snd (loop r st)) \<and> length rs \<le> 60 \<longrightarrow>
      (\<forall>out\<in>set (snd (run rs (fst (loop r st)))). \<not> battery_reported out)) \<and>
   (length rs \<le> 60 \<longrightarrow>
      (\<forall>out\<in>set (snd (run rs (fst (setup_measurements cfg r0)))). \<not> battery_reported out))"
proof -
  have guard: "battery_reported (snd (loop r st)) \<longleftrightarrow>
      sent CHILD_ID_TEMP (snd (loop r st)) \<and> 60 < sendBattery st + 1 \<and> vcc r \<noteq> - 1"
    by (simp add: loop_battery loop_sent_th)
  have counter: "sendBattery (fst (loop r st)) =
     (if sent CHILD_ID_TEMP (snd (loop r st)) \<and> 60 < sendBattery st + 1 then 0
      else sendBattery st + 1)"
    by (simp add: loop_sent_th loop_sendBattery)
  have after_report: "battery_reported (snd (loop r st)) \<and> length rs \<le> 60 \<longrightarrow>
      (\<forall>out\<in>set (snd (run rs (fst (loop r st)))). \<not> battery_reported out)"
  proof
    assume a: "battery_reported (snd (loop r st)) \<and> length rs \<le> 60"
    with guard counter have "sendBattery (fst (loop r st)) + int (length rs) \<le> 60" by simp
    then show "\<forall>out\<in>set (snd (run rs (fst (loop r st)))). \<not> battery_reported out"
      by (rule quiet_run)
  qed
  have after_setup: "length rs \<le> 60 \<longrightarrow>
      (\<forall>out\<in>set (snd (run rs (fst (setup_measurements cfg r0)))). \<not> battery_reported out)"
  proof
    assume "length rs \<le> 60"
    then have "sendBattery (fst (setup_measurements cfg r0)) + int (length rs) \<le> 60"
      by (simp add: setup_measurements_fields)
    then show "\<forall>out\<in>set (snd (run rs (fst (setup_measurements cfg r0)))). \<not> battery_reported out"
      by (rule quiet_run)
  qed
  from guard counter after_report after_setup show ?thesis by blast
qed

theorem battery_reported_with_transmission_witness:
  "sent CHILD_ID_TEMP (snd (loop sample_a cycle62_state)) \<and>
   60 < sendBattery cycle62_state + 1 \<and> vcc sample_a \<noteq> - 1 \<and>
   battery_reported (snd (loop sample_a cycle62_state)) \<and>
   sendBattery (fst (loop sample_a cycle62_state)) = 0 \<and>
   length (replicate 60 sample_a) \<le> 60 \<and>
   list_all (\<lambda>out. \<not> battery_reported out)
     (snd (run (replicate 60 sample_a) (fst (loop sample_a cycle62_state)))) \<and>
   list_all (\<lambda>out. \<not> battery_reported out)
     (snd (run (replicate 60 sample_a) (fst (setup_measurements True sample_a))))"
proof -
  have sent62: "sent CHILD_ID_TEMP (snd (loop sample_a cycle62_state))"
    using cycle62_state_facts
    by (simp add: loop_sent_th loop_tx_def tx_flag_iff FORCE_TRANSMIT_INTERVAL_def)
  have sb: "60 < sendBattery cycle62_state + 1" using cycle62_state_facts by simp
  have v: "vcc sample_a \<noteq> - 1" by (simp add: sample_a_def)
  from sent62 sb v
    battery_reported_with_transmission [of sample_a cycle62_state "replicate 60 sample_a"
      True sample_a]
  show ?thesis by (simp add: list_all_iff)
qed

text \<open>
  On the run with a constant sample, cycle 31 is a forced transmission and reports
  no battery. The counter exceeds 60 from cycle 61 on, but the cycles 32 to 61 are
  silent, and the battery is reported in cycle 62, the next forced transmission.
\<close>

theorem forced_transmission_without_battery:
  "FORCE_TRANSMIT_INTERVAL < measureCount cycle31_state + 1 \<and>
   sent CHILD_ID_TEMP (snd (loop sample_a cycle31_state)) \<and>
   \<not> battery_reported (snd (loop sample_a cycle31_state)) \<and>
   list_all (\<lambda>out. \<not> battery_reported out)
     (snd (run (replicate 30 sample_a) (fst (loop sample_a cycle31_state)))) \<and>
   sendBattery cycle62_state = 61 \<and>
   FORCE_TRANSMIT_INTERVAL < measureCount cycle62_state + 1 \<and>
   battery_reported (snd (loop sample_a cycle62_state))"
proof -
  have v: "vcc sample_a \<noteq> - 1" by (simp add: sample_a_def)
  from cycle31_state_facts have a:
    "FORCE_TRANSMIT_INTERVAL < measureCount cycle31_state + 1"
    "sent CHILD_ID_TEMP (snd (loop sample_a cycle31_state))"
    "\<not> battery_reported (snd (loop sample_a cycle31_state))"
    by (simp_all add: loop_sent_th loop_battery loop_tx_def tx_flag_iff
        FORCE_TRANSMIT_INTERVAL_def)
  from cycle62_state_facts v have b:
    "sendBattery cycle62_state = 61"
    "FORCE_TRANSMIT_INTERVAL < measureCount cycle62_state + 1"
    "battery_reported (snd (loop sample_a cycle62_state))"
    by (simp_all add: loop_sent_th loop_battery loop_tx_def tx_flag_iff
        FORCE_TRANSMIT_INTERVAL_def)
  from cycle62_state_facts have c:
    "list_all (\<lambda>out. \<not> battery_reported out)
       (snd (run (replicate 30 sample_a) (fst (loop sample_a cycle31_state))))"
    by (simp add: list_all_iff)
  from a b c show ?thesis by blast
qed

end
